theory Spec2Isabelle
  imports Main "HOL-Library.AList"
begin

section \<open>The Bereza messenger server: a shallow embedding of \<open>server.js\<close>\<close>

text \<open>
  The repository holds two versions of \<open>server.js\<close>. Version 1 (lines 1 to 1081) is the
  authenticated server with friends, unread counters and call ids; version 2 (the rest) is
  the earlier server keyed by client-supplied user ids. Both are embedded here, version 2
  with the suffix \<open>_v2\<close>.

  Conventions of the embedding.
  \<^item> Identifiers (user, chat, socket, call and request ids) and e-mail addresses are
    \<open>string\<close>s. Human-readable text (names, avatars, message text) is a list of UTF-16 code
    units, since the source's literals are Cyrillic.
  \<^item> A JavaScript \<open>Map\<close> is an association list in insertion order: \<open>get\<close> is
    \<open>map_of\<close>, \<open>set\<close> is \<open>AList.update\<close> (an existing key keeps its position, a new
    key goes to the end), \<open>delete\<close> is \<open>AList.delete\<close>. A \<open>Set\<close> is a list in
    insertion order without repetition.
  \<^item> A time is the number of milliseconds since the epoch, an \<open>int\<close>;
    \<open>toISOString\<close> and \<open>new Date(iso)\<close> are inverse to each other on it. Each handler
    reads the clock once (\<open>now\<close>); the few successive readings inside one handler are
    identified.
  \<^item> An absent payload field and the empty string are both falsy in the source; a
    string-valued payload field is a list and \<open>[]\<close> stands for both.
  \<^item> A handler returns the new server state and the list of its outputs in the order it
    produces them: an event emitted on a socket, or the HTTP response.
  \<^item> \<open>io.sockets.sockets\<close>, the runtime's registry of connected sockets, is the field
    \<open>sockets\<close>: socket id to the socket's \<open>userId\<close> attribute.
\<close>

type_synonym uid = string
type_synonym cid = string
type_synonym sid = string
type_synonym utext = "nat list"
type_synonym time = int

subsection \<open>Data model of version 1\<close>

datatype status = Online | Offline

record user =
  user_id :: uid
  user_name :: utext
  email :: string
  password :: string
  avatar :: utext
  user_createdAt :: time
  status :: status
  lastSeen :: time

record message =
  message_id :: string
  message_text :: utext
  senderId :: uid
  senderName :: utext
  senderAvatar :: utext
  timestamp :: time
  message_chatId :: cid

datatype chat_type = Private | Group

record chat =
  chat_id :: cid
  chat_name :: utext
  chat_type :: chat_type
  participants :: "uid list"
  messages :: "message list"
  chat_createdAt :: time
  updatedAt :: time
  lastMessage :: "message option"
  unreadCount :: "nat option"

datatype call_status = Calling | Active

record call =
  call_id :: string
  call_chatId :: cid
  callerId :: uid
  callerName :: utext
  call_type :: string
  call_participants :: "uid list"
  call_status :: call_status
  startTime :: time

datatype request_status = Pending | Accepted | Rejected

record friend_request =
  request_id :: string
  fromUserId :: uid
  toUserId :: uid
  request_status :: request_status
  request_createdAt :: time
  respondedAt :: "time option"

record server =
  users :: "(uid \<times> user) list"
  chats :: "(cid \<times> chat) list"
  activeCalls :: "(string \<times> call) list"
  friendships :: "(uid \<times> uid list) list"
  friendRequests :: "(uid \<times> friend_request list) list"
  socketUsers :: "(sid \<times> uid) list"
  sockets :: "(sid \<times> uid option) list"

subsection \<open>Outputs\<close>

text \<open>The payload shapes of the emitted events: \<open>{id, name, email, avatar}\<close>, the entries
  of \<open>friends_list\<close>, \<open>friend_requests\<close> and \<open>chats_list\<close>.\<close>

type_synonym user_brief = "uid \<times> utext \<times> string \<times> utext"
type_synonym friend_info = "uid \<times> utext \<times> string \<times> utext \<times> bool \<times> time"
type_synonym request_info = "string \<times> user_brief \<times> time"

record chat_info =
  info_id :: cid
  info_name :: utext
  info_type :: chat_type
  info_participants :: "(uid \<times> utext \<times> utext) list"
  info_lastMessage :: "message option"
  info_unreadCount :: nat
  info_createdAt :: time
  info_updatedAt :: time

datatype event =
    Authenticated
  | Auth_error
  | Friends_list "friend_info list"
  | Friend_requests "request_info list"
  | Chats_list "chat_info list"
  | Chat_created chat
  | Friend_request string user_brief time
  | Friend_request_accepted user_brief
  | Friend_status_changed uid utext status time
  | New_message cid message
  | Incoming_call string cid utext string
  | Call_started string call
  | Call_accepted string uid call
  | Call_ended string int
  | Incoming_call_v2 cid utext string
  | Call_accepted_v2 cid utext
  | Call_rejected_v2 cid utext
  | Chats_list_v2 "(cid \<times> utext \<times> utext \<times> uid list \<times> nat \<times> time) list"
  | Chat_created_v2 cid utext "uid list" time

datatype body =
    Failure
  | Success
  | Auth_ok user
  | Request_sent string
  | Friend_added uid
  | Created chat
  | History "message list"
  | Posted message

datatype out = Emit sid event | Respond nat body

subsection \<open>Helpers of the runtime\<close>

text \<open>\<open>Array.prototype.slice(-n)\<close>: the last \<open>n\<close> elements, all of them when there are
  fewer.\<close>

definition slice_last :: "nat \<Rightarrow> 'a list \<Rightarrow> 'a list" where
  "slice_last n xs = drop (length xs - n) xs"

text \<open>\<open>Set.prototype.add\<close> and \<open>Set.prototype.delete\<close> on a set kept in insertion order.\<close>

definition Set_add :: "'a \<Rightarrow> 'a list \<Rightarrow> 'a list" where
  "Set_add x xs = (if x \<in> set xs then xs else xs @ [x])"

definition Set_delete :: "'a \<Rightarrow> 'a list \<Rightarrow> 'a list" where
  "Set_delete x xs = removeAll x xs"

text \<open>Keeping the first occurrence of every element: \<open>[...new Set(xs)]\<close> and
  \<open>xs.filter((v, i, a) => a.indexOf(v) === i)\<close>.\<close>

fun unique_first :: "'a list \<Rightarrow> 'a list" where
  "unique_first [] = []"
| "unique_first (x # xs) = x # unique_first (removeAll x xs)"

text \<open>The decimal digits of \<open>Date.now()\<close> when it is concatenated to a string.\<close>

definition digit_char :: "nat \<Rightarrow> char" where
  "digit_char d = ''0123456789'' ! d"

fun digits :: "nat \<Rightarrow> string" where
  "digits n = (if n < 10 then [digit_char n]
               else digits (n div 10) @ [digit_char (n mod 10)])"

declare digits.simps [simp del]

definition show_time :: "time \<Rightarrow> string" where
  "show_time t = (if t < 0 then CHR ''-'' # digits (nat (- t)) else digits (nat t))"

text \<open>\<open>chat.unreadCount || 0\<close>: the counter is \<open>undefined\<close> until the first increment
  or reset.\<close>

definition or0 :: "nat option \<Rightarrow> nat" where
  "or0 c = (case c of None \<Rightarrow> 0 | Some n \<Rightarrow> n)"

text \<open>\<open>Array.prototype.join\<close>.\<close>

fun join :: "'a list \<Rightarrow> 'a list list \<Rightarrow> 'a list" where
  "join sep [] = []"
| "join sep [x] = x"
| "join sep (x # y # ys) = x @ sep @ join sep (y # ys)"

text \<open>Updating in place the first element of an array that satisfies a test
  (\<open>findIndex\<close>, then assignments to the fields of the element found).\<close>

fun update_first :: "('a \<Rightarrow> bool) \<Rightarrow> ('a \<Rightarrow> 'a) \<Rightarrow> 'a list \<Rightarrow> 'a list" where
  "update_first P f [] = []"
| "update_first P f (x # xs) = (if P x then f x # xs else x # update_first P f xs)"

subsection \<open>Session lookups of version 1\<close>

text \<open>\<open>socket.userId\<close> of a connected socket; \<open>None\<close> is \<open>undefined\<close>.\<close>

definition socket_userId :: "server \<Rightarrow> sid \<Rightarrow> uid option" where
  "socket_userId s socket = (case map_of (sockets s) socket of None \<Rightarrow> None | Some a \<Rightarrow> a)"

text \<open>\<open>getSocketByUserId\<close> (lines 967 to 974) returns the socket of the first entry of
  \<open>socketUsers\<close> that maps to the user, when the runtime still has that socket.\<close>

definition getSocketByUserId :: "server \<Rightarrow> uid \<Rightarrow> sid option" where
  "getSocketByUserId s userId =
     (case find (\<lambda>(socketId, u). u = userId) (socketUsers s) of
        None \<Rightarrow> None
      | Some (socketId, u) \<Rightarrow>
          (case map_of (sockets s) socketId of None \<Rightarrow> None | Some a \<Rightarrow> Some socketId))"

definition isUserOnline :: "server \<Rightarrow> uid \<Rightarrow> bool" where
  "isUserOnline s userId \<longleftrightarrow> userId \<in> set (map snd (socketUsers s))"

text \<open>The recurring pattern \<open>const k = this.getSocketByUserId(u); if (k) k.emit(...)\<close>.\<close>

definition emit_to :: "server \<Rightarrow> uid \<Rightarrow> event \<Rightarrow> out list" where
  "emit_to s userId ev =
     (case getSocketByUserId s userId of None \<Rightarrow> [] | Some k \<Rightarrow> [Emit k ev])"

subsection \<open>\<open>send_message\<close> of version 1 (lines 661 to 707)\<close>

text \<open>One iteration of the delivery loop over \<open>chat.participants\<close> (lines 693 to 706). The
  loop state is \<open>chat.unreadCount\<close> and the events emitted so far.\<close>

definition deliver :: "server \<Rightarrow> uid \<Rightarrow> cid \<Rightarrow> message \<Rightarrow> nat option \<times> out list \<Rightarrow> uid
    \<Rightarrow> nat option \<times> out list" where
  "deliver s userId chatId msg acc participantId =
     (case getSocketByUserId s participantId of
        Some participantSocket \<Rightarrow>
          (fst acc, snd acc @ [Emit participantSocket (New_message chatId msg)])
      | None \<Rightarrow>
          (if participantId \<noteq> userId
           then (Some (or0 (fst acc) + 1), snd acc)
           else acc))"

text \<open>The message object built at lines 673 to 681.\<close>

definition new_message :: "uid \<Rightarrow> user \<Rightarrow> cid \<Rightarrow> utext \<Rightarrow> time \<Rightarrow> string \<Rightarrow> message" where
  "new_message userId user chatId txt now rnd =
     \<lparr> message_id = ''msg_'' @ show_time now @ ''_'' @ rnd,
       message_text = txt,
       senderId = userId,
       senderName = user_name user,
       senderAvatar = avatar user,
       timestamp = now,
       message_chatId = chatId \<rparr>"

definition send_message :: "server \<Rightarrow> sid \<Rightarrow> cid \<Rightarrow> utext \<Rightarrow> time \<Rightarrow> string \<Rightarrow> server \<times> out list" where
  "send_message s socket chatId txt now rnd =
     (case socket_userId s socket of
        None \<Rightarrow> (s, [])
      | Some userId \<Rightarrow>
          if userId = [] \<or> chatId = [] \<or> txt = [] then (s, [])
          else (case map_of (chats s) chatId of
            None \<Rightarrow> (s, [])
          | Some chat \<Rightarrow>
              if userId \<notin> set (participants chat) then (s, [])
              else (case map_of (users s) userId of
                None \<Rightarrow> (s, [])
              | Some user \<Rightarrow>
                  let msg = new_message userId user chatId txt now rnd;
                      pushed = messages chat @ [msg];
                      chat1 = chat \<lparr> messages :=
                                       (if length pushed > 1000 then slice_last 100 pushed
                                        else pushed),
                                     updatedAt := now,
                                     lastMessage := Some msg \<rparr>;
                      loop = foldl (deliver s userId chatId msg) (unreadCount chat1, [])
                               (participants chat1)
                  in (s \<lparr> chats := AList.update chatId (chat1 \<lparr> unreadCount := fst loop \<rparr>)
                                     (chats s) \<rparr>,
                      snd loop))))"

subsection \<open>Reading the history, \<open>GET /api/chats/:chatId/messages\<close> (lines 589 to 612)\<close>

definition get_messages :: "server \<Rightarrow> uid \<Rightarrow> cid \<Rightarrow> server \<times> out list" where
  "get_messages s userId chatId =
     (case map_of (chats s) chatId of
        None \<Rightarrow> (s, [Respond 404 Failure])
      | Some chat \<Rightarrow>
          if userId \<notin> set (participants chat) then (s, [Respond 403 Failure])
          else (s \<lparr> chats := AList.update chatId (chat \<lparr> unreadCount := Some 0 \<rparr>) (chats s) \<rparr>,
                [Respond 200 (History (slice_last 100 (messages chat)))]))"

subsection \<open>Call signalling of version 1 (lines 710 to 802)\<close>

text \<open>The call record built at lines 723 to 733.\<close>

definition new_call :: "uid \<Rightarrow> user \<Rightarrow> cid \<Rightarrow> string \<Rightarrow> time \<Rightarrow> call" where
  "new_call userId user chatId type now =
     \<lparr> call_id = ''call_'' @ show_time now,
       call_chatId = chatId,
       callerId = userId,
       callerName = user_name user,
       call_type = (if type = [] then ''voice'' else type),
       call_participants = [userId],
       call_status = Calling,
       startTime = now \<rparr>"

definition start_call :: "server \<Rightarrow> sid \<Rightarrow> cid \<Rightarrow> string \<Rightarrow> time \<Rightarrow> server \<times> out list" where
  "start_call s socket chatId type now =
     (case socket_userId s socket of
        None \<Rightarrow> (s, [])
      | Some userId \<Rightarrow>
          if userId = [] \<or> chatId = [] then (s, [])
          else (case map_of (chats s) chatId of
            None \<Rightarrow> (s, [])
          | Some chat \<Rightarrow>
              if userId \<notin> set (participants chat) then (s, [])
              else (case map_of (users s) userId of
                None \<Rightarrow> (s, [])
              | Some user \<Rightarrow>
                  let callId = ''call_'' @ show_time now;
                      callData = new_call userId user chatId type now;
                      s1 = s \<lparr> activeCalls := AList.update callId callData (activeCalls s) \<rparr>
                  in (s1,
                      concat (map (\<lambda>participantId.
                          if participantId \<noteq> userId
                          then emit_to s1 participantId
                                 (Incoming_call callId chatId (user_name user) (call_type callData))
                          else []) (participants chat))
                      @ [Emit socket (Call_started callId callData)]))))"

text \<open>\<open>this.io.emit\<close> sends to every connected socket.\<close>

definition io_emit :: "server \<Rightarrow> event \<Rightarrow> out list" where
  "io_emit s ev = map (\<lambda>(k, a). Emit k ev) (sockets s)"

definition accept_call :: "server \<Rightarrow> sid \<Rightarrow> string \<Rightarrow> server \<times> out list" where
  "accept_call s socket callId =
     (case socket_userId s socket of
        None \<Rightarrow> (s, [])
      | Some userId \<Rightarrow>
          if userId = [] \<or> callId = [] then (s, [])
          else (case map_of (activeCalls s) callId of
            None \<Rightarrow> (s, [])
          | Some callData \<Rightarrow>
              let callData1 = callData \<lparr> call_participants := call_participants callData @ [userId],
                                         call_status := Active \<rparr>;
                  s1 = s \<lparr> activeCalls := AList.update callId callData1 (activeCalls s) \<rparr>
              in (s1, io_emit s1 (Call_accepted callId userId callData1))))"

definition end_call :: "server \<Rightarrow> sid \<Rightarrow> string \<Rightarrow> time \<Rightarrow> server \<times> out list" where
  "end_call s socket callId now =
     (if callId = [] then (s, [])
      else (case map_of (activeCalls s) callId of
        None \<Rightarrow> (s, [])
      | Some callData \<Rightarrow>
          (s \<lparr> activeCalls := AList.delete callId (activeCalls s) \<rparr>,
           concat (map (\<lambda>participantId.
               emit_to s participantId (Call_ended callId ((now - startTime callData) div 1000)))
             (call_participants callData)))))"

subsection \<open>Presence of version 1\<close>

text \<open>\<open>Array.from(this.friendships.get(userId) || [])\<close>.\<close>

definition friendIds_of :: "server \<Rightarrow> uid \<Rightarrow> uid list" where
  "friendIds_of s userId =
     (case map_of (friendships s) userId of None \<Rightarrow> [] | Some fs \<Rightarrow> fs)"

text \<open>\<open>notifyFriendsStatusChange\<close> (lines 980 to 996).\<close>

definition notifyFriendsStatusChange :: "server \<Rightarrow> uid \<Rightarrow> status \<Rightarrow> out list" where
  "notifyFriendsStatusChange s userId st =
     (case map_of (users s) userId of
        None \<Rightarrow> []
      | Some user \<Rightarrow>
          let friendIds = friendIds_of s userId
          in concat (map (\<lambda>friendId.
               emit_to s friendId (Friend_status_changed userId (user_name user) st (lastSeen user)))
             friendIds))"

definition brief :: "user \<Rightarrow> user_brief" where
  "brief u = (user_id u, user_name u, email u, avatar u)"

definition chat_info_of :: "server \<Rightarrow> chat \<Rightarrow> chat_info" where
  "chat_info_of s chat =
     \<lparr> info_id = chat_id chat,
       info_name = chat_name chat,
       info_type = chat_type chat,
       info_participants = List.map_filter (\<lambda>pId.
           case map_of (users s) pId of
             None \<Rightarrow> None
           | Some u \<Rightarrow> Some (user_id u, user_name u, avatar u)) (participants chat),
       info_lastMessage = lastMessage chat,
       info_unreadCount = or0 (unreadCount chat),
       info_createdAt = chat_createdAt chat,
       info_updatedAt = updatedAt chat \<rparr>"

text \<open>\<open>sendUserDataToSocket\<close> (lines 998 to 1061).\<close>

definition sendUserDataToSocket :: "server \<Rightarrow> uid \<Rightarrow> sid \<Rightarrow> out list" where
  "sendUserDataToSocket s userId socket =
     (case map_of (users s) userId of
        None \<Rightarrow> []
      | Some user \<Rightarrow>
          let friendIds = friendIds_of s userId;
              friends = List.map_filter (\<lambda>friendId.
                  case map_of (users s) friendId of
                    None \<Rightarrow> None
                  | Some friend \<Rightarrow>
                      Some (user_id friend, user_name friend, email friend, avatar friend,
                            isUserOnline s friendId, lastSeen friend)) friendIds;
              requests = (case map_of (friendRequests s) userId of None \<Rightarrow> [] | Some rs \<Rightarrow> rs);
              pendingRequests = filter (\<lambda>req. request_status req = Pending) requests;
              detailedRequests = List.map_filter (\<lambda>req.
                  case map_of (users s) (fromUserId req) of
                    None \<Rightarrow> None
                  | Some fromUser \<Rightarrow> Some (request_id req, brief fromUser, request_createdAt req))
                pendingRequests;
              userChats = map (chat_info_of s)
                (filter (\<lambda>chat. userId \<in> set (participants chat)) (map snd (chats s)))
          in [Emit socket (Friends_list friends),
              Emit socket (Friend_requests detailedRequests),
              Emit socket (Chats_list userChats)])"

text \<open>The \<open>authenticate\<close> handler (lines 631 to 658). Verifying the token is the JWT
  library's work: \<open>verified\<close> is the \<open>userId\<close> of the decoded token, \<open>None\<close> when
  \<open>jwt.verify\<close> throws.\<close>

definition authenticate :: "server \<Rightarrow> sid \<Rightarrow> uid option \<Rightarrow> time \<Rightarrow> server \<times> out list" where
  "authenticate s socket verified now =
     (case verified of
        None \<Rightarrow> (s, [Emit socket Auth_error])
      | Some userId \<Rightarrow>
          (case map_of (users s) userId of
             None \<Rightarrow> (s, [])
           | Some user \<Rightarrow>
               let s1 = s \<lparr> sockets := AList.map_entry socket (\<lambda>a. Some userId) (sockets s),
                            socketUsers := AList.update socket userId (socketUsers s) \<rparr>;
                   s2 = s1 \<lparr> users := AList.update userId
                                         (user \<lparr> status := Online, lastSeen := now \<rparr>) (users s1) \<rparr>
               in (s2,
                   notifyFriendsStatusChange s2 userId Online
                   @ [Emit socket Authenticated]
                   @ sendUserDataToSocket s2 userId socket)))"

text \<open>A new connection: the runtime registers the socket, the handler (line 627) only
  installs the event handlers.\<close>

definition connection :: "server \<Rightarrow> sid \<Rightarrow> server" where
  "connection s socket = s \<lparr> sockets := AList.update socket None (sockets s) \<rparr>"

text \<open>The \<open>disconnect\<close> handler (lines 805 to 822). The runtime has removed the socket
  from its registry when the handler runs.\<close>

definition disconnect :: "server \<Rightarrow> sid \<Rightarrow> time \<Rightarrow> server \<times> out list" where
  "disconnect s socket now =
     (let s0 = s \<lparr> sockets := AList.delete socket (sockets s) \<rparr>
      in case map_of (socketUsers s0) socket of
           None \<Rightarrow> (s0, [])
         | Some userId \<Rightarrow>
             if userId = [] then (s0, [])
             else
               let s1 = s0 \<lparr> socketUsers := AList.delete socket (socketUsers s0) \<rparr>
               in (case map_of (users s1) userId of
                     None \<Rightarrow> (s1, [])
                   | Some user \<Rightarrow>
                       let s2 = s1 \<lparr> users := AList.update userId
                                            (user \<lparr> status := Offline, lastSeen := now \<rparr>) (users s1) \<rparr>
                       in (s2, notifyFriendsStatusChange s2 userId Offline)))"

subsection \<open>Chats created by the server (lines 880 to 965)\<close>

definition demoChat :: "uid \<Rightarrow> time \<Rightarrow> chat" where
  "demoChat userId now =
     (let chatId = ''demo_chat_'' @ userId;
          msgs =
            [\<lparr> message_id = ''demo_msg_1'',
               message_text = [1044, 1086, 1073, 1088, 1086, 32, 1087, 1086, 1078, 1072, 1083,
                 1086, 1074, 1072, 1090, 1100, 32, 1074, 32, 1041, 1077, 1088, 1077, 1089,
                 1090, 1072, 33, 32, 55356, 57225],
               senderId = ''demo_user_1'',
               senderName = [1040, 1085, 1085, 1072, 32, 1048, 1074, 1072, 1085, 1086, 1074,
                 1072],
               senderAvatar = [1040],
               timestamp = now - 86400000,
               message_chatId = chatId \<rparr>,
             \<lparr> message_id = ''demo_msg_2'',
               message_text = [1047, 1076, 1077, 1089, 1100, 32, 1074, 1099, 32, 1084, 1086,
                 1078, 1077, 1090, 1077, 32, 1086, 1073, 1097, 1072, 1090, 1100, 1089, 1103,
                 32, 1089, 32, 1076, 1088, 1091, 1079, 1100, 1103, 1084, 1080, 44, 32, 1089,
                 1086, 1074, 1077, 1088, 1096, 1072, 1090, 1100, 32, 1079, 1074, 1086, 1085,
                 1082, 1080, 32, 1080, 32, 1084, 1085, 1086, 1075, 1086, 1077, 32, 1076, 1088,
                 1091, 1075, 1086, 1077, 33],
               senderId = ''demo_user_2'',
               senderName = [1048, 1074, 1072, 1085, 32, 1055, 1077, 1090, 1088, 1086, 1074],
               senderAvatar = [1048],
               timestamp = now - 43200000,
               message_chatId = chatId \<rparr>,
             \<lparr> message_id = ''demo_msg_3'',
               message_text = [1044, 1086, 1073, 1072, 1074, 1083, 1103, 1081, 1090, 1077, 32,
                 1076, 1088, 1091, 1079, 1077, 1081, 32, 1087, 1086, 32, 101, 109, 97, 105,
                 108, 32, 1080, 32, 1085, 1072, 1095, 1080, 1085, 1072, 1081, 1090, 1077, 32,
                 1085, 1086, 1074, 1099, 1077, 32, 1073, 1077, 1089, 1077, 1076, 1099, 33, 32,
                 55357, 56395],
               senderId = ''demo_user_3'',
               senderName = [1052, 1072, 1088, 1080, 1103, 32, 1057, 1080, 1076, 1086, 1088,
                 1086, 1074, 1072],
               senderAvatar = [1052],
               timestamp = now,
               message_chatId = chatId \<rparr>]
      in \<lparr> chat_id = chatId,
           chat_name = [1054, 1073, 1097, 1080, 1081, 32, 1095, 1072, 1090],
           chat_type = Group,
           participants = unique_first [''demo_user_1'', ''demo_user_2'', ''demo_user_3'', userId],
           messages = msgs,
           chat_createdAt = now,
           updatedAt = now,
           lastMessage = Some (last msgs),
           unreadCount = None \<rparr>)"

text \<open>\<open>createDemoChat\<close> (lines 880 to 925).\<close>

definition createDemoChat :: "server \<Rightarrow> uid \<Rightarrow> time \<Rightarrow> server" where
  "createDemoChat s userId now =
     (let chatId = ''demo_chat_'' @ userId
      in case map_of (chats s) chatId of
           Some c \<Rightarrow> s
         | None \<Rightarrow> s \<lparr> chats := AList.update chatId (demoChat userId now) (chats s) \<rparr>)"

text \<open>\<open>createChatBetweenUsers\<close> (lines 927 to 965) returns the chat id, or \<open>null\<close>
  (\<open>None\<close>) when one of the users is unknown. The key of the chat is
  \<open>`chat_${userId1}_${userId2}`\<close>.\<close>

definition private_chat_id :: "uid \<Rightarrow> uid \<Rightarrow> cid" where
  "private_chat_id userId1 userId2 = ''chat_'' @ userId1 @ ''_'' @ userId2"

definition welcome_message :: "uid \<Rightarrow> uid \<Rightarrow> user \<Rightarrow> time \<Rightarrow> message" where
  "welcome_message userId1 userId2 user1 now =
     \<lparr> message_id = ''welcome_msg'',
       message_text = [1055, 1088, 1080, 1074, 1077, 1090, 33, 32, 1071, 32]
         @ user_name user1
         @ [46, 32, 1044, 1072, 1074, 1072, 1081, 1090, 1077, 32, 1086, 1073, 1097, 1072, 1090,
            1100, 1089, 1103, 33, 32, 55357, 56842],
       senderId = userId1,
       senderName = user_name user1,
       senderAvatar = avatar user1,
       timestamp = now,
       message_chatId = private_chat_id userId1 userId2 \<rparr>"

definition createChatBetweenUsers :: "server \<Rightarrow> uid \<Rightarrow> uid \<Rightarrow> time \<Rightarrow> server \<times> cid option" where
  "createChatBetweenUsers s userId1 userId2 now =
     (let chatId = private_chat_id userId1 userId2;
          reverseChatId = private_chat_id userId2 userId1;
          existingChat = (case map_of (chats s) chatId of
                            Some c \<Rightarrow> Some c
                          | None \<Rightarrow> map_of (chats s) reverseChatId)
      in case existingChat of
           Some c \<Rightarrow> (s, Some (chat_id c))
         | None \<Rightarrow>
             (case (map_of (users s) userId1, map_of (users s) userId2) of
                (Some user1, Some user2) \<Rightarrow>
                  let welcome = welcome_message userId1 userId2 user1 now;
                      newChat = \<lparr> chat_id = chatId,
                                  chat_name = user_name user2,
                                  chat_type = Private,
                                  participants = [userId1, userId2],
                                  messages = [welcome],
                                  chat_createdAt = now,
                                  updatedAt = now,
                                  lastMessage = Some welcome,
                                  unreadCount = None \<rparr>
                  in (s \<lparr> chats := AList.update chatId newChat (chats s) \<rparr>, Some chatId)
              | _ \<Rightarrow> (s, None)))"

subsection \<open>The constructor and its demo data (lines 9 to 34 and 827 to 878)\<close>

definition demoUsers :: "time \<Rightarrow> user list" where
  "demoUsers now =
     [\<lparr> user_id = ''demo_user_1'',
        user_name = [1040, 1085, 1085, 1072, 32, 1048, 1074, 1072, 1085, 1086, 1074, 1072],
        email = ''anna@example.com'',
        password = ''$2a$10$abc123'',
        avatar = [1040],
        user_createdAt = now,
        status = Online,
        lastSeen = now \<rparr>,
      \<lparr> user_id = ''demo_user_2'',
        user_name = [1048, 1074, 1072, 1085, 32, 1055, 1077, 1090, 1088, 1086, 1074],
        email = ''ivan@example.com'',
        password = ''$2a$10$def456'',
        avatar = [1048],
        user_createdAt = now,
        status = Offline,
        lastSeen = now - 3600000 \<rparr>,
      \<lparr> user_id = ''demo_user_3'',
        user_name = [1052, 1072, 1088, 1080, 1103, 32, 1057, 1080, 1076, 1086, 1088, 1086,
          1074, 1072],
        email = ''maria@example.com'',
        password = ''$2a$10$ghi789'',
        avatar = [1052],
        user_createdAt = now,
        status = Online,
        lastSeen = now \<rparr>]"

definition createDemoData :: "server \<Rightarrow> time \<Rightarrow> server" where
  "createDemoData s now =
     (if users s = [] then
        let s1 = foldl (\<lambda>st u.
                   st \<lparr> users := AList.update (user_id u) u (users st),
                        friendships := AList.update (user_id u) [] (friendships st),
                        friendRequests := AList.update (user_id u) [] (friendRequests st) \<rparr>)
                   s (demoUsers now);
            add = (\<lambda>a b fs. AList.map_entry a (Set_add b) fs);
            s2 = s1 \<lparr> friendships :=
                   add ''demo_user_3'' ''demo_user_1''
                     (add ''demo_user_1'' ''demo_user_3''
                       (add ''demo_user_2'' ''demo_user_1''
                         (add ''demo_user_1'' ''demo_user_2'' (friendships s1)))) \<rparr>
        in createDemoChat s2 ''demo_user_1'' now
      else s)"

definition BerezaServer :: "time \<Rightarrow> server" where
  "BerezaServer now =
     createDemoData
       \<lparr> users = [], chats = [], activeCalls = [], friendships = [], friendRequests = [],
         socketUsers = [], sockets = [] \<rparr> now"

subsection \<open>Registration and login (lines 67 to 185)\<close>

text \<open>The test of \<open>/^[^\s@]+@[^\s@]+\.[^\s@]+$/\<close>: a non-empty local part, one \<open>@\<close>, and
  a domain with a dot that is neither its first nor its last character; no white space
  anywhere.\<close>

definition is_space :: "char \<Rightarrow> bool" where
  "is_space c \<longleftrightarrow> (of_char c :: nat) \<in> {9, 10, 11, 12, 13, 32, 160}"

definition emailRegex_test :: "string \<Rightarrow> bool" where
  "emailRegex_test e =
     (let localPart = takeWhile (\<lambda>c. c \<noteq> CHR ''@'') e;
          rest = dropWhile (\<lambda>c. c \<noteq> CHR ''@'') e
      in rest \<noteq> [] \<and> localPart \<noteq> []
         \<and> list_all (\<lambda>c. \<not> is_space c) localPart
         \<and> list_all (\<lambda>c. \<not> is_space c \<and> c \<noteq> CHR ''@'') (tl rest)
         \<and> CHR ''.'' \<in> set (butlast (tl (tl rest))))"

text \<open>\<open>POST /api/auth/register\<close>. The hash of the password (\<open>bcrypt.hash\<close>), the
  avatar (\<open>name.charAt(0).toUpperCase()\<close>) and the random suffix of the user id are
  computed by the runtime and are inputs here. The handler checks its input, awaits the
  hash and then stores the user: \<open>register_commit\<close> is the part after the await (lines 94
  to 129), which other handlers can precede.\<close>

definition register_commit :: "server \<Rightarrow> utext \<Rightarrow> string \<Rightarrow> string \<Rightarrow> utext \<Rightarrow> time \<Rightarrow> string
    \<Rightarrow> server \<times> out list" where
  "register_commit s name mail hashedPassword initial now rnd =
     (let userId = ''user_'' @ show_time now @ rnd;
          newUser = \<lparr> user_id = userId,
                      user_name = name,
                      email = mail,
                      password = hashedPassword,
                      avatar = initial,
                      user_createdAt = now,
                      status = Offline,
                      lastSeen = now \<rparr>;
          s1 = s \<lparr> users := AList.update userId newUser (users s),
                   friendships := AList.update userId [] (friendships s),
                   friendRequests := AList.update userId [] (friendRequests s) \<rparr>
      in (createDemoChat s1 userId now, [Respond 201 (Auth_ok (newUser \<lparr> password := [] \<rparr>))]))"

definition register :: "server \<Rightarrow> utext \<Rightarrow> string \<Rightarrow> string \<Rightarrow> string \<Rightarrow> utext \<Rightarrow> time \<Rightarrow> string
    \<Rightarrow> server \<times> out list" where
  "register s name mail pass hashedPassword initial now rnd =
     (if name = [] \<or> mail = [] \<or> pass = [] then (s, [Respond 400 Failure])
      else if length pass < 6 then (s, [Respond 400 Failure])
      else if \<not> emailRegex_test mail then (s, [Respond 400 Failure])
      else if find (\<lambda>u. email u = mail) (map snd (users s)) \<noteq> None
        then (s, [Respond 400 Failure])
      else register_commit s name mail hashedPassword initial now rnd)"

text \<open>\<open>POST /api/auth/login\<close>; \<open>validPassword\<close> is the result of \<open>bcrypt.compare\<close>, which
  the handler awaits. \<open>login_commit\<close> is the part after the await (lines 160 to 179): it
  writes two fields of the user object found before the await.\<close>

definition login_commit :: "server \<Rightarrow> uid \<Rightarrow> time \<Rightarrow> server \<times> out list" where
  "login_commit s k now =
     (case map_of (users s) k of
        None \<Rightarrow> (s, [Respond 500 Failure])
      | Some user \<Rightarrow>
          let user1 = user \<lparr> status := Online, lastSeen := now \<rparr>
          in (s \<lparr> users := AList.update k user1 (users s) \<rparr>,
              [Respond 200 (Auth_ok (user1 \<lparr> password := [] \<rparr>))]))"

definition login :: "server \<Rightarrow> string \<Rightarrow> string \<Rightarrow> bool \<Rightarrow> time \<Rightarrow> server \<times> out list" where
  "login s mail pass validPassword now =
     (if mail = [] \<or> pass = [] then (s, [Respond 400 Failure])
      else case find (\<lambda>(k, u). email u = mail) (users s) of
          None \<Rightarrow> (s, [Respond 401 Failure])
        | Some (k, user) \<Rightarrow>
            if \<not> validPassword then (s, [Respond 401 Failure])
            else login_commit s k now)"

subsection \<open>The friend graph (lines 272 to 493)\<close>

text \<open>In the HTTP handlers \<open>req.userId\<close> is the user id of a token the server has signed;
  it is an input. An exception inside a handler is caught and answered with status 500,
  and the changes made before it stay.\<close>

definition has_friend :: "server \<Rightarrow> uid \<Rightarrow> uid \<Rightarrow> bool" where
  "has_friend s a b =
     (case map_of (friendships s) a of None \<Rightarrow> False | Some fs \<Rightarrow> b \<in> set fs)"

definition is_pending :: "string \<Rightarrow> friend_request \<Rightarrow> bool" where
  "is_pending requestId req \<longleftrightarrow> request_id req = requestId \<and> request_status req = Pending"

definition send_friend_request :: "server \<Rightarrow> uid \<Rightarrow> string \<Rightarrow> time \<Rightarrow> server \<times> out list" where
  "send_friend_request s currentUserId friendEmail now =
     (if friendEmail = [] then (s, [Respond 400 Failure])
      else if map_option email (map_of (users s) currentUserId) = Some friendEmail
        then (s, [Respond 400 Failure])
      else case find (\<lambda>u. email u = friendEmail) (map snd (users s)) of
          None \<Rightarrow> (s, [Respond 404 Failure])
        | Some friend \<Rightarrow>
            if has_friend s currentUserId (user_id friend) then (s, [Respond 400 Failure])
            else if find (\<lambda>req. fromUserId req = currentUserId \<and> request_status req = Pending)
                      (case map_of (friendRequests s) (user_id friend) of
                         None \<Rightarrow> [] | Some rs \<Rightarrow> rs) \<noteq> None
              then (s, [Respond 400 Failure])
            else
              let requestId = ''friend_req_'' @ show_time now;
                  request = \<lparr> request_id = requestId,
                              fromUserId = currentUserId,
                              toUserId = user_id friend,
                              request_status = Pending,
                              request_createdAt = now,
                              respondedAt = None \<rparr>;
                  stored = (case map_of (friendRequests s) (user_id friend) of
                              None \<Rightarrow> [] | Some rs \<Rightarrow> rs);
                  s1 = s \<lparr> friendRequests :=
                             AList.update (user_id friend) (stored @ [request]) (friendRequests s) \<rparr>
              in (case getSocketByUserId s1 (user_id friend) of
                    None \<Rightarrow> (s1, [Respond 200 (Request_sent requestId)])
                  | Some friendSocket \<Rightarrow>
                      (case map_of (users s1) currentUserId of
                         None \<Rightarrow> (s1, [Respond 500 Failure])
                       | Some fromUser \<Rightarrow>
                           (s1, [Emit friendSocket (Friend_request requestId (brief fromUser) now),
                                 Respond 200 (Request_sent requestId)]))))"

text \<open>The answer to a request (lines 396 to 400 and 451 to 453): the first pending request
  with the given id among those sent to the user gets the new status and
  \<open>respondedAt\<close>.\<close>

definition answer_request :: "server \<Rightarrow> uid \<Rightarrow> string \<Rightarrow> request_status \<Rightarrow> time \<Rightarrow> server" where
  "answer_request s userId requestId st now =
     s \<lparr> friendRequests := AList.update userId
           (update_first (is_pending requestId)
              (\<lambda>r. r \<lparr> request_status := st, respondedAt := Some now \<rparr>)
              (case map_of (friendRequests s) userId of None \<Rightarrow> [] | Some rs \<Rightarrow> rs))
           (friendRequests s) \<rparr>"

text \<open>Adding the two users to each other's friends (lines 403 to 407).\<close>

definition add_friends :: "server \<Rightarrow> uid \<Rightarrow> uid \<Rightarrow> server" where
  "add_friends s userId fromId =
     (let fs1 = (if map_of (friendships s) userId = None
                 then AList.update userId [] (friendships s) else friendships s);
          fs2 = (if map_of fs1 fromId = None then AList.update fromId [] fs1 else fs1);
          fs3 = AList.map_entry userId (Set_add fromId) fs2;
          fs4 = AList.map_entry fromId (Set_add userId) fs3
      in s \<lparr> friendships := fs4 \<rparr>)"

definition accept_friend_request :: "server \<Rightarrow> uid \<Rightarrow> string \<Rightarrow> time \<Rightarrow> server \<times> out list" where
  "accept_friend_request s userId requestId now =
     (let requests = (case map_of (friendRequests s) userId of None \<Rightarrow> [] | Some rs \<Rightarrow> rs)
      in case find (is_pending requestId) requests of
           None \<Rightarrow> (s, [Respond 404 Failure])
         | Some request \<Rightarrow>
             let s1 = answer_request s userId requestId Accepted now;
                 s2 = add_friends s1 userId (fromUserId request)
             in (case getSocketByUserId s2 (fromUserId request) of
                   None \<Rightarrow>
                     (fst (createChatBetweenUsers s2 userId (fromUserId request) now),
                      [Respond 200 (Friend_added (fromUserId request))])
                 | Some fromUserSocket \<Rightarrow>
                     (case map_of (users s2) userId of
                        None \<Rightarrow> (s2, [Respond 500 Failure])
                      | Some currentUser \<Rightarrow>
                          (fst (createChatBetweenUsers s2 userId (fromUserId request) now),
                           [Emit fromUserSocket (Friend_request_accepted (brief currentUser)),
                            Respond 200 (Friend_added (fromUserId request))]))))"

definition reject_friend_request :: "server \<Rightarrow> uid \<Rightarrow> string \<Rightarrow> time \<Rightarrow> server \<times> out list" where
  "reject_friend_request s userId requestId now =
     (let requests = (case map_of (friendRequests s) userId of None \<Rightarrow> [] | Some rs \<Rightarrow> rs)
      in case find (is_pending requestId) requests of
           None \<Rightarrow> (s, [Respond 404 Failure])
         | Some request \<Rightarrow>
             (answer_request s userId requestId Rejected now, [Respond 200 Success]))"

definition remove_friend :: "server \<Rightarrow> uid \<Rightarrow> uid \<Rightarrow> server \<times> out list" where
  "remove_friend s userId friendId =
     (let fs1 = (if map_of (friendships s) userId \<noteq> None
                 then AList.map_entry userId (Set_delete friendId) (friendships s)
                 else friendships s);
          fs2 = (if map_of fs1 friendId \<noteq> None
                 then AList.map_entry friendId (Set_delete userId) fs1
                 else fs1)
      in (s \<lparr> friendships := fs2 \<rparr>, [Respond 200 Success]))"

subsection \<open>\<open>POST /api/chats\<close> (lines 527 to 587)\<close>

text \<open>\<open>participantIds\<close> is \<open>None\<close> when the body has no array under that name; \<open>name\<close> is
  \<open>[]\<close> when the body has no name.\<close>

definition create_chat :: "server \<Rightarrow> uid \<Rightarrow> utext \<Rightarrow> uid list option \<Rightarrow> time \<Rightarrow> server \<times> out list" where
  "create_chat s userId name participantIds now =
     (case participantIds of
        None \<Rightarrow> (s, [Respond 400 Failure])
      | Some ids \<Rightarrow>
          let allParticipants = unique_first (userId # ids)
          in if find (\<lambda>pId. map_of (users s) pId = None) allParticipants \<noteq> None
             then (s, [Respond 404 Failure])
             else if find (\<lambda>chat. length (participants chat) = length allParticipants
                                  \<and> list_all (\<lambda>pId. pId \<in> set allParticipants) (participants chat))
                       (map snd (chats s)) \<noteq> None
             then (s, [Respond 400 Failure])
             else
               let chatId = ''chat_'' @ show_time now;
                   chatName = (if name \<noteq> [] then name
                               else join [44, 32]
                                 (map (\<lambda>pId. case map_of (users s) pId of
                                                None \<Rightarrow> [] | Some u \<Rightarrow> user_name u)
                                    (filter (\<lambda>pId. pId \<noteq> userId) allParticipants)));
                   newChat = \<lparr> chat_id = chatId,
                               chat_name = chatName,
                               chat_type = (if length allParticipants > 2 then Group else Private),
                               participants = allParticipants,
                               messages = [],
                               chat_createdAt = now,
                               updatedAt = now,
                               lastMessage = None,
                               unreadCount = None \<rparr>;
                   s1 = s \<lparr> chats := AList.update chatId newChat (chats s) \<rparr>
               in (s1,
                   concat (map (\<lambda>pId. emit_to s1 pId (Chat_created newChat)) allParticipants)
                   @ [Respond 201 (Created newChat)]))"

subsection \<open>The server as a transition system\<close>

text \<open>The inputs of version 1 that can change the state. The read-only routes
  (\<open>/api/auth/me\<close>, the user search, the lists of friends, requests and chats, \<open>/health\<close>)
  are left out. Every handler runs to its end before the next one starts, but for the two
  that await: \<open>Register\<close> and \<open>Login\<close> run such a handler in one piece, \<open>Register_resumed\<close>
  and \<open>Login_resumed\<close> run only the part after the await, in whatever state the handlers
  that ran meanwhile have left.\<close>

datatype input =
    Register utext string string string utext time string
  | Register_resumed utext string string utext time string
  | Login string string bool time
  | Login_resumed uid time
  | Send_friend_request uid string time
  | Accept_friend_request uid string time
  | Reject_friend_request uid string time
  | Remove_friend uid uid
  | Create_chat uid utext "uid list option" time
  | Get_messages uid cid
  | Connection sid
  | Authenticate sid "uid option" time
  | Send_message sid cid utext time string
  | Start_call sid cid string time
  | Accept_call sid string
  | End_call sid string time
  | Disconnect sid time

fun step :: "server \<Rightarrow> input \<Rightarrow> server \<times> out list" where
  "step s (Register name mail pass hashed initial now rnd) =
     register s name mail pass hashed initial now rnd"
| "step s (Register_resumed name mail hashed initial now rnd) =
     register_commit s name mail hashed initial now rnd"
| "step s (Login mail pass valid now) = login s mail pass valid now"
| "step s (Login_resumed k now) = login_commit s k now"
| "step s (Send_friend_request u mail now) = send_friend_request s u mail now"
| "step s (Accept_friend_request u r now) = accept_friend_request s u r now"
| "step s (Reject_friend_request u r now) = reject_friend_request s u r now"
| "step s (Remove_friend u f) = remove_friend s u f"
| "step s (Create_chat u name ids now) = create_chat s u name ids now"
| "step s (Get_messages u c) = get_messages s u c"
| "step s (Connection k) = (connection s k, [])"
| "step s (Authenticate k v now) = authenticate s k v now"
| "step s (Send_message k c txt now rnd) = send_message s k c txt now rnd"
| "step s (Start_call k c type now) = start_call s k c type now"
| "step s (Accept_call k c) = accept_call s k c"
| "step s (End_call k c now) = end_call s k c now"
| "step s (Disconnect k now) = disconnect s k now"

text \<open>What the runtime guarantees of an input: a generated user id is fresh, a new
  socket has an id no connected socket has, and socket events come from connected
  sockets.\<close>

fun admissible :: "server \<Rightarrow> input \<Rightarrow> bool" where
  "admissible s (Register name mail pass hashed initial now rnd) =
     (let userId = ''user_'' @ show_time now @ rnd
      in map_of (users s) userId = None \<and> map_of (friendships s) userId = None)"
| "admissible s (Register_resumed name mail hashed initial now rnd) =
     (let userId = ''user_'' @ show_time now @ rnd
      in map_of (users s) userId = None \<and> map_of (friendships s) userId = None)"
| "admissible s (Login_resumed k now) = (map_of (users s) k \<noteq> None)"
| "admissible s (Connection k) = (map_of (sockets s) k = None)"
| "admissible s (Authenticate k v now) = (map_of (sockets s) k \<noteq> None)"
| "admissible s (Send_message k c txt now rnd) = (map_of (sockets s) k \<noteq> None)"
| "admissible s (Start_call k c type now) = (map_of (sockets s) k \<noteq> None)"
| "admissible s (Accept_call k c) = (map_of (sockets s) k \<noteq> None)"
| "admissible s (End_call k c now) = (map_of (sockets s) k \<noteq> None)"
| "admissible s (Disconnect k now) = (map_of (sockets s) k \<noteq> None)"
| "admissible s i = True"

inductive reachable :: "server \<Rightarrow> bool" where
  reachable_start: "reachable (BerezaServer now)"
| reachable_step: "reachable s \<Longrightarrow> admissible s i \<Longrightarrow> reachable (fst (step s i))"

section \<open>Version 2 (lines 1082 to 1454)\<close>

text \<open>Version 2 has no accounts: a client announces its own user id with
  \<open>user_connected\<close>, the \<open>users\<close> map goes from user id to the user's socket id, messages
  are the objects the client sends, and a call is stored under its chat id.\<close>

record user_v2 =
  id_v2 :: uid
  name_v2 :: utext
  avatar_v2 :: utext
  socketId :: sid

record chat_v2 =
  chat_id_v2 :: cid
  chat_name_v2 :: utext
  participants_v2 :: "uid list"
  messages_v2 :: "message list"
  createdAt_v2 :: time
  lastMessage_v2 :: "utext option"

record call_v2 =
  chatId_v2 :: cid
  caller_v2 :: utext
  type_v2 :: string
  status_v2 :: call_status
  call_participants_v2 :: "uid list"
  startTime_v2 :: time

record server_v2 =
  users_v2 :: "(uid \<times> user_v2) list"
  chats_v2 :: "(cid \<times> chat_v2) list"
  activeCalls_v2 :: "(cid \<times> call_v2) list"
  sockets_v2 :: "(sid \<times> uid option) list"

definition socket_userId_v2 :: "server_v2 \<Rightarrow> sid \<Rightarrow> uid option" where
  "socket_userId_v2 s socket =
     (case map_of (sockets_v2 s) socket of None \<Rightarrow> None | Some a \<Rightarrow> a)"

text \<open>\<open>getSocketByUserId\<close> of version 2 (lines 1437 to 1442).\<close>

definition getSocketByUserId_v2 :: "server_v2 \<Rightarrow> uid \<Rightarrow> sid option" where
  "getSocketByUserId_v2 s userId =
     (case map_of (users_v2 s) userId of
        None \<Rightarrow> None
      | Some user \<Rightarrow>
          (case map_of (sockets_v2 s) (socketId user) of
             None \<Rightarrow> None
           | Some a \<Rightarrow> Some (socketId user)))"

definition emit_to_v2 :: "server_v2 \<Rightarrow> uid \<Rightarrow> event \<Rightarrow> out list" where
  "emit_to_v2 s userId ev =
     (case getSocketByUserId_v2 s userId of None \<Rightarrow> [] | Some k \<Rightarrow> [Emit k ev])"

text \<open>\<open>sendChatsToUser\<close> (lines 1417 to 1435).\<close>

definition sendChatsToUser :: "server_v2 \<Rightarrow> uid \<Rightarrow> out list" where
  "sendChatsToUser s userId =
     emit_to_v2 s userId
       (Chats_list_v2
          (map (\<lambda>chat.
                  (chat_id_v2 chat, chat_name_v2 chat,
                   (if messages_v2 chat \<noteq> [] then message_text (last (messages_v2 chat))
                    else [1053, 1077, 1090, 32, 1089, 1086, 1086, 1073, 1097, 1077, 1085, 1080,
                          1081]),
                   participants_v2 chat, length (messages_v2 chat), createdAt_v2 chat))
             (filter (\<lambda>chat. userId \<in> set (participants_v2 chat)) (map snd (chats_v2 s)))))"

text \<open>The \<open>user_connected\<close> handler (lines 1228 to 1243).\<close>

definition user_connected :: "server_v2 \<Rightarrow> sid \<Rightarrow> uid \<Rightarrow> utext \<Rightarrow> utext \<Rightarrow> time \<Rightarrow> server_v2 \<times> out list" where
  "user_connected s socket dataId dataName dataAvatar now =
     (let user = \<lparr> id_v2 = (if dataId \<noteq> [] then dataId else ''user_'' @ show_time now),
                   name_v2 = (if dataName \<noteq> [] then dataName else [85, 115, 101, 114]),
                   avatar_v2 = (if dataAvatar \<noteq> [] then dataAvatar else [85]),
                   socketId = socket \<rparr>;
          s1 = s \<lparr> users_v2 := AList.update (id_v2 user) user (users_v2 s),
                   sockets_v2 := AList.map_entry socket (\<lambda>a. Some (id_v2 user)) (sockets_v2 s) \<rparr>
      in (s1, sendChatsToUser s1 (id_v2 user)))"

text \<open>The \<open>create_chat\<close> handler (lines 1251 to 1270); \<open>dataParticipants\<close> is \<open>None\<close> when
  the client sends none.\<close>

definition create_chat_v2 :: "server_v2 \<Rightarrow> sid \<Rightarrow> cid \<Rightarrow> utext \<Rightarrow> uid list option \<Rightarrow> time
    \<Rightarrow> server_v2 \<times> out list" where
  "create_chat_v2 s socket dataId dataName dataParticipants now =
     (let chatId = (if dataId \<noteq> [] then dataId else ''chat_'' @ show_time now);
          newChat = \<lparr> chat_id_v2 = chatId,
                      chat_name_v2 = dataName,
                      participants_v2 =
                        (case dataParticipants of
                           Some ps \<Rightarrow> ps
                         | None \<Rightarrow> (case socket_userId_v2 s socket of
                                      None \<Rightarrow> [''''] | Some u \<Rightarrow> [u])),
                      messages_v2 = [],
                      createdAt_v2 = now,
                      lastMessage_v2 = None \<rparr>;
          s1 = s \<lparr> chats_v2 := AList.update chatId newChat (chats_v2 s) \<rparr>
      in (s1,
          concat (map (\<lambda>userId.
              emit_to_v2 s1 userId
                (Chat_created_v2 chatId dataName (participants_v2 newChat) now))
            (participants_v2 newChat))))"

text \<open>The \<open>send_message\<close> handler of version 2 (lines 1273 to 1301). The message is the
  object the client sent.\<close>

definition send_message_v2 :: "server_v2 \<Rightarrow> sid \<Rightarrow> message \<Rightarrow> server_v2 \<times> out list" where
  "send_message_v2 s socket msg =
     (case map_of (chats_v2 s) (message_chatId msg) of
        None \<Rightarrow> (s, [])
      | Some chat \<Rightarrow>
          let pushed = messages_v2 chat @ [msg];
              chat1 = chat \<lparr> messages_v2 :=
                               (if length pushed > 1000 then slice_last 1000 pushed else pushed),
                             lastMessage_v2 := Some (message_text msg) \<rparr>;
              s1 = s \<lparr> chats_v2 := AList.update (message_chatId msg) chat1 (chats_v2 s) \<rparr>
          in (s1,
              concat (map (\<lambda>userId.
                  if userId \<noteq> senderId msg
                  then emit_to_v2 s1 userId (New_message (message_chatId msg) msg)
                  else []) (participants_v2 chat1))))"

text \<open>\<open>POST /api/messages\<close> of version 2 (lines 1157 to 1198).\<close>

definition posted_message :: "cid \<Rightarrow> utext \<Rightarrow> uid \<Rightarrow> utext \<Rightarrow> time \<Rightarrow> message" where
  "posted_message chatId txt sender sender_name now =
     \<lparr> message_id = ''msg_'' @ show_time now,
       message_text = txt,
       senderId = sender,
       senderName = sender_name,
       senderAvatar = [],
       timestamp = now,
       message_chatId = chatId \<rparr>"

definition post_message_v2 :: "server_v2 \<Rightarrow> cid \<Rightarrow> utext \<Rightarrow> uid \<Rightarrow> utext \<Rightarrow> time \<Rightarrow> server_v2 \<times> out list" where
  "post_message_v2 s chatId txt sender sender_name now =
     (if chatId = [] \<or> txt = [] \<or> sender = [] then (s, [Respond 400 Failure])
      else case map_of (chats_v2 s) chatId of
          None \<Rightarrow> (s, [Respond 404 Failure])
        | Some chat \<Rightarrow>
            let msg = posted_message chatId txt sender sender_name now;
                pushed = messages_v2 chat @ [msg];
                chat1 = chat \<lparr> messages_v2 :=
                                 (if length pushed > 1000 then slice_last 1000 pushed else pushed) \<rparr>;
                s1 = s \<lparr> chats_v2 := AList.update chatId chat1 (chats_v2 s) \<rparr>
            in (s1,
                concat (map (\<lambda>userId. emit_to_v2 s1 userId (New_message chatId msg))
                  (participants_v2 chat1))
                @ [Respond 201 (Posted msg)]))"

subsection \<open>Call signalling of version 2 (lines 1304 to 1402)\<close>

definition start_call_v2 :: "server_v2 \<Rightarrow> sid \<Rightarrow> cid \<Rightarrow> utext \<Rightarrow> string \<Rightarrow> time \<Rightarrow> server_v2 \<times> out list" where
  "start_call_v2 s socket chatId caller type now =
     (case map_of (chats_v2 s) chatId of
        None \<Rightarrow> (s, [])
      | Some chat \<Rightarrow>
          let callData = \<lparr> chatId_v2 = chatId,
                           caller_v2 = (if caller \<noteq> [] then caller
                                        else [85, 110, 107, 110, 111, 119, 110]),
                           type_v2 = (if type \<noteq> [] then type else ''voice''),
                           status_v2 = Calling,
                           call_participants_v2 = participants_v2 chat,
                           startTime_v2 = now \<rparr>;
              s1 = s \<lparr> activeCalls_v2 := AList.update chatId callData (activeCalls_v2 s) \<rparr>
          in (s1,
              concat (map (\<lambda>userId.
                  if Some userId \<noteq> socket_userId_v2 s1 socket
                  then emit_to_v2 s1 userId (Incoming_call_v2 chatId caller type)
                  else []) (participants_v2 chat))))"

definition accept_call_v2 :: "server_v2 \<Rightarrow> sid \<Rightarrow> cid \<Rightarrow> server_v2 \<times> out list" where
  "accept_call_v2 s socket chatId =
     (case map_of (activeCalls_v2 s) chatId of
        None \<Rightarrow> (s, [])
      | Some callData \<Rightarrow>
          let callData1 = callData \<lparr> status_v2 := Active \<rparr>;
              s1 = s \<lparr> activeCalls_v2 := AList.update chatId callData1 (activeCalls_v2 s) \<rparr>
          in (s1,
              concat (map (\<lambda>userId.
                  emit_to_v2 s1 userId (Call_accepted_v2 chatId (caller_v2 callData1)))
                (call_participants_v2 callData1))))"

definition reject_call_v2 :: "server_v2 \<Rightarrow> sid \<Rightarrow> cid \<Rightarrow> server_v2 \<times> out list" where
  "reject_call_v2 s socket chatId =
     (case map_of (activeCalls_v2 s) chatId of
        None \<Rightarrow> (s, [])
      | Some callData \<Rightarrow>
          (s \<lparr> activeCalls_v2 := AList.delete chatId (activeCalls_v2 s) \<rparr>,
           concat (map (\<lambda>userId.
               emit_to_v2 s userId (Call_rejected_v2 chatId (caller_v2 callData)))
             (call_participants_v2 callData))))"


text \<open>The \<open>disconnect\<close> handler of version 2 (lines 1405 to 1413).\<close>

definition disconnect_v2 :: "server_v2 \<Rightarrow> sid \<Rightarrow> server_v2" where
  "disconnect_v2 s socket =
     (let attr = socket_userId_v2 s socket;
          s0 = s \<lparr> sockets_v2 := AList.delete socket (sockets_v2 s) \<rparr>
      in case attr of
           None \<Rightarrow> s0
         | Some userId \<Rightarrow>
             if userId = [] then s0
             else (case map_of (users_v2 s0) userId of
                     None \<Rightarrow> s0
                   | Some user \<Rightarrow> s0 \<lparr> users_v2 := AList.delete userId (users_v2 s0) \<rparr>))"

definition inv_ids :: "server \<Rightarrow> bool" where
  "inv_ids s \<longleftrightarrow> map_of (users s) [] = None \<and> map_of (chats s) [] = None
      \<and> map_of (activeCalls s) [] = None"

definition inv_sessions :: "server \<Rightarrow> bool" where
  "inv_sessions s \<longleftrightarrow>
     (\<forall>k u. map_of (sockets s) k = Some (Some u) \<longrightarrow> map_of (users s) u \<noteq> None)
   \<and> (\<forall>k u. map_of (socketUsers s) k = Some u \<longrightarrow> map_of (sockets s) k = Some (Some u))"

definition friend_sym :: "server \<Rightarrow> bool" where
  "friend_sym s \<longleftrightarrow> (\<forall>a b. has_friend s a b \<longleftrightarrow> has_friend s b a)"

text \<open>The guards of \<open>send_message\<close> (lines 665 to 671) all pass: the socket is
  authenticated as \<open>userId\<close>, the payload is complete, the chat exists and has the user
  among its participants.\<close>

definition send_ok :: "server \<Rightarrow> sid \<Rightarrow> cid \<Rightarrow> utext \<Rightarrow> uid \<Rightarrow> chat \<Rightarrow> user \<Rightarrow> bool" where
  "send_ok s socket chatId txt userId chat user \<longleftrightarrow>
     socket_userId s socket = Some userId \<and> userId \<noteq> [] \<and> chatId \<noteq> [] \<and> txt \<noteq> []
     \<and> map_of (chats s) chatId = Some chat \<and> userId \<in> set (participants chat)
     \<and> map_of (users s) userId = Some user"

text \<open>Running a list of inputs, and the inputs being admissible one after the other.\<close>

fun run :: "server \<Rightarrow> input list \<Rightarrow> server" where
  "run s [] = s"
| "run s (i # is) = run (fst (step s i)) is"

fun admissible_run :: "server \<Rightarrow> input list \<Rightarrow> bool" where
  "admissible_run s [] = True"
| "admissible_run s (i # is) = (admissible s i \<and> admissible_run (fst (step s i)) is)"

text \<open>An example run: Anna and Ivan of the demo data connect and authenticate, and Ivan
  opens a chat with Maria.\<close>

definition example_inputs :: "input list" where
  "example_inputs =
     [Connection ''k1'', Authenticate ''k1'' (Some ''demo_user_1'') 1000,
      Connection ''k2'', Authenticate ''k2'' (Some ''demo_user_2'') 1500,
      Create_chat ''demo_user_2'' [] (Some [''demo_user_3'']) 2000]"

definition example_server :: server where
  "example_server = run (BerezaServer 0) example_inputs"

text \<open>The message history and the unread counter of a chat as a client reads them
  (\<open>chat.unreadCount || 0\<close>, lines 514 and 1055).\<close>

definition history :: "server \<Rightarrow> cid \<Rightarrow> message list" where
  "history s chatId = (case map_of (chats s) chatId of None \<Rightarrow> [] | Some chat \<Rightarrow> messages chat)"

definition unread :: "server \<Rightarrow> cid \<Rightarrow> nat" where
  "unread s chatId =
     (case map_of (chats s) chatId of None \<Rightarrow> 0 | Some chat \<Rightarrow> or0 (unreadCount chat))"

definition history_v2 :: "server_v2 \<Rightarrow> cid \<Rightarrow> message list" where
  "history_v2 s chatId =
     (case map_of (chats_v2 s) chatId of None \<Rightarrow> [] | Some chat \<Rightarrow> messages_v2 chat)"

text \<open>Example states of version 2: three connected users, a room of Alice, Bob and Carol
  (who is not connected) without Dave, and the same room with a history of 1000
  messages.\<close>

definition example_message :: message where
  "example_message =
     \<lparr> message_id = ''m1'', message_text = [104, 105], senderId = ''alice'',
       senderName = [65], senderAvatar = [65], timestamp = 5000, message_chatId = ''room'' \<rparr>"

definition example_server_v2 :: server_v2 where
  "example_server_v2 =
     \<lparr> users_v2 =
         [(''alice'', \<lparr> id_v2 = ''alice'', name_v2 = [65], avatar_v2 = [65], socketId = ''k1'' \<rparr>),
          (''bob'', \<lparr> id_v2 = ''bob'', name_v2 = [66], avatar_v2 = [66], socketId = ''k2'' \<rparr>),
          (''dave'', \<lparr> id_v2 = ''dave'', name_v2 = [68], avatar_v2 = [68], socketId = ''k3'' \<rparr>)],
       chats_v2 =
         [(''room'', \<lparr> chat_id_v2 = ''room'', chat_name_v2 = [82],
                       participants_v2 = [''alice'', ''bob'', ''carol''], messages_v2 = [],
                       createdAt_v2 = 100, lastMessage_v2 = None \<rparr>)],
       activeCalls_v2 = [],
       sockets_v2 = [(''k1'', Some ''alice''), (''k2'', Some ''bob''), (''k3'', Some ''dave'')] \<rparr>"

definition full_server_v2 :: server_v2 where
  "full_server_v2 =
     example_server_v2 \<lparr> chats_v2 :=
       [(''room'', \<lparr> chat_id_v2 = ''room'', chat_name_v2 = [82],
                     participants_v2 = [''alice'', ''bob'', ''carol''],
                     messages_v2 = replicate 1000 example_message,
                     createdAt_v2 = 100, lastMessage_v2 = Some [104, 105] \<rparr>)] \<rparr>"

text \<open>The example server of version 1 with a demo chat that already holds 1000
  messages.\<close>

definition full_server :: server where
  "full_server =
     example_server \<lparr> chats :=
       [(''demo_chat_demo_user_1'',
         (demoChat ''demo_user_1'' 0)
           \<lparr> messages := map (\<lambda>i. new_message ''demo_user_2'' (demoUsers 0 ! 1)
                                   ''demo_chat_demo_user_1'' [104, 105] (int i) ''x'')
                             [0..<1000] \<rparr>)] \<rparr>"

text \<open>The sockets on which a list of outputs emits, in order.\<close>

fun targets :: "out list \<Rightarrow> sid list" where
  "targets [] = []"
| "targets (Emit k ev # os) = k # targets os"
| "targets (Respond n b # os) = targets os"

text \<open>The example servers with a call that rings: Anna calls the demo chat at time 3000,
  Alice calls the room at time 7000.\<close>

definition calling_server :: server where
  "calling_server = fst (start_call example_server ''k1'' ''demo_chat_demo_user_1'' ''video'' 3000)"

definition calling_server_v2 :: server_v2 where
  "calling_server_v2 = fst (start_call_v2 example_server_v2 ''k1'' ''room'' [65] ''video'' 7000)"

text \<open>The pending request that \<open>accept\<close> and \<open>reject\<close> look for (lines 389 and 390).\<close>

definition pending_request :: "server \<Rightarrow> uid \<Rightarrow> string \<Rightarrow> friend_request option" where
  "pending_request s userId requestId =
     find (is_pending requestId)
       (case map_of (friendRequests s) userId of None \<Rightarrow> [] | Some rs \<Rightarrow> rs)"

text \<open>The example run goes on: at time 4000 Ivan asks Maria to be his friend.\<close>

definition requested_server :: server where
  "requested_server =
     fst (send_friend_request example_server ''demo_user_2'' ''maria@example.com'' 4000)"

text \<open>Anna on two sockets: in the example server a third socket \<open>k3\<close> connects, Anna
  authenticates again on \<open>k1\<close> and then on \<open>k3\<close>, and \<open>k1\<close> disconnects.\<close>

definition two_devices :: "server \<times> out list" where
  "two_devices =
     disconnect
       (fst (authenticate
          (fst (authenticate (connection example_server ''k3'') ''k1'' (Some ''demo_user_1'') 6000))
          ''k3'' (Some ''demo_user_1'') 7000))
       ''k1'' 8000"


text \<open>Invariants of the data: the key of a user is the user's id and no key occurs twice;
  no request is stored under the id of its own sender; the participants of a chat are
  pairwise different.\<close>

definition users_ok :: "(uid \<times> user) list \<Rightarrow> bool" where
  "users_ok al \<longleftrightarrow> distinct (map fst al) \<and> list_all (\<lambda>(k, u). user_id u = k) al"

definition requests_ok :: "(uid \<times> friend_request list) list \<Rightarrow> bool" where
  "requests_ok al \<longleftrightarrow> list_all (\<lambda>(k, rs). list_all (\<lambda>r. fromUserId r \<noteq> k) rs) al"

definition chats_ok :: "(cid \<times> chat) list \<Rightarrow> bool" where
  "chats_ok al \<longleftrightarrow> list_all (\<lambda>(c, chat). distinct (participants chat)) al"

definition inv_data :: "server \<Rightarrow> bool" where
  "inv_data s \<longleftrightarrow> users_ok (users s) \<and> requests_ok (friendRequests s) \<and> chats_ok (chats s)"

lemma find_pair_Some: "find (\<lambda>(k, u). P u) xs = Some (k, v) \<Longrightarrow> map_of xs k \<noteq> None"
  by (induction xs) (auto split: if_splits)

lemma createDemoChat_fields [simp]:
  "users (createDemoChat s u now) = users s"
  "activeCalls (createDemoChat s u now) = activeCalls s"
  "friendships (createDemoChat s u now) = friendships s"
  "friendRequests (createDemoChat s u now) = friendRequests s"
  "socketUsers (createDemoChat s u now) = socketUsers s"
  "sockets (createDemoChat s u now) = sockets s"
  by (simp_all add: createDemoChat_def Let_def split: option.splits)

lemma createDemoChat_chats:
  "map_of (chats (createDemoChat s u now)) [] = map_of (chats s) []"
  by (simp add: createDemoChat_def Let_def update_conv' split: option.splits)

lemma private_chat_id_nonempty [simp]:
  "private_chat_id a b \<noteq> []" "[] \<noteq> private_chat_id a b"
  by (simp_all add: private_chat_id_def)

lemma createChatBetweenUsers_fields [simp]:
  "users (fst (createChatBetweenUsers s a b now)) = users s"
  "activeCalls (fst (createChatBetweenUsers s a b now)) = activeCalls s"
  "friendships (fst (createChatBetweenUsers s a b now)) = friendships s"
  "friendRequests (fst (createChatBetweenUsers s a b now)) = friendRequests s"
  "socketUsers (fst (createChatBetweenUsers s a b now)) = socketUsers s"
  "sockets (fst (createChatBetweenUsers s a b now)) = sockets s"
  by (simp_all add: createChatBetweenUsers_def Let_def split: option.splits)

lemma createChatBetweenUsers_chats:
  "map_of (chats (fst (createChatBetweenUsers s a b now))) [] = map_of (chats s) []"
  by (auto simp add: createChatBetweenUsers_def Let_def update_conv' split: option.splits)

lemma answer_request_fields [simp]:
  "users (answer_request s u r st now) = users s"
  "chats (answer_request s u r st now) = chats s"
  "activeCalls (answer_request s u r st now) = activeCalls s"
  "friendships (answer_request s u r st now) = friendships s"
  "socketUsers (answer_request s u r st now) = socketUsers s"
  "sockets (answer_request s u r st now) = sockets s"
  by (simp_all add: answer_request_def)

lemma add_friends_fields [simp]:
  "users (add_friends s a b) = users s"
  "chats (add_friends s a b) = chats s"
  "activeCalls (add_friends s a b) = activeCalls s"
  "friendRequests (add_friends s a b) = friendRequests s"
  "socketUsers (add_friends s a b) = socketUsers s"
  "sockets (add_friends s a b) = sockets s"
  by (simp_all add: add_friends_def Let_def)

lemma inv_ids_start: "inv_ids (BerezaServer now)"
  by (simp add: inv_ids_def BerezaServer_def createDemoData_def demoUsers_def Let_def
      createDemoChat_chats)

lemma register_commit_inv_ids:
  "inv_ids s \<Longrightarrow> inv_ids (fst (register_commit s name mail hashed initial now rnd))"
  by (simp add: inv_ids_def register_commit_def Let_def update_conv' createDemoChat_chats)

lemma register_inv_ids: "inv_ids s \<Longrightarrow> inv_ids (fst (register s name mail pass hashed initial now rnd))"
  by (simp add: register_def register_commit_inv_ids)

lemma login_commit_inv_ids: "inv_ids s \<Longrightarrow> inv_ids (fst (login_commit s k now))"
  by (auto simp: inv_ids_def login_commit_def Let_def update_conv' split: option.splits)

lemma login_inv_ids: "inv_ids s \<Longrightarrow> inv_ids (fst (login s mail pass valid now))"
  by (simp add: login_def login_commit_inv_ids split: option.splits)

lemma send_friend_request_inv_ids: "inv_ids s \<Longrightarrow> inv_ids (fst (send_friend_request s u mail now))"
  by (simp add: inv_ids_def send_friend_request_def Let_def split: option.splits)

lemma accept_friend_request_inv_ids: "inv_ids s \<Longrightarrow> inv_ids (fst (accept_friend_request s u r now))"
  by (simp add: inv_ids_def accept_friend_request_def Let_def createChatBetweenUsers_chats split: option.splits)

lemma reject_friend_request_inv_ids: "inv_ids s \<Longrightarrow> inv_ids (fst (reject_friend_request s u r now))"
  by (simp add: inv_ids_def reject_friend_request_def Let_def split: option.splits)

lemma remove_friend_inv_ids: "inv_ids s \<Longrightarrow> inv_ids (fst (remove_friend s u f))"
  by (simp add: inv_ids_def remove_friend_def Let_def)

lemma create_chat_inv_ids: "inv_ids s \<Longrightarrow> inv_ids (fst (create_chat s u name ids now))"
  by (simp add: inv_ids_def create_chat_def Let_def update_conv' split: option.splits)

lemma get_messages_inv_ids: "inv_ids s \<Longrightarrow> inv_ids (fst (get_messages s u c))"
  by (auto simp add: inv_ids_def get_messages_def Let_def update_conv' split: option.splits)

lemma connection_inv_ids: "inv_ids s \<Longrightarrow> inv_ids (connection s k)"
  by (simp add: inv_ids_def connection_def)

lemma authenticate_inv_ids: "inv_ids s \<Longrightarrow> inv_ids (fst (authenticate s k v now))"
  by (auto simp add: inv_ids_def authenticate_def Let_def update_conv' split: option.splits)

lemma send_message_inv_ids: "inv_ids s \<Longrightarrow> inv_ids (fst (send_message s k c txt now rnd))"
  by (auto simp add: inv_ids_def send_message_def Let_def update_conv' split: option.splits)

lemma start_call_inv_ids: "inv_ids s \<Longrightarrow> inv_ids (fst (start_call s k c type now))"
  by (auto simp add: inv_ids_def start_call_def Let_def update_conv' split: option.splits)

lemma accept_call_inv_ids: "inv_ids s \<Longrightarrow> inv_ids (fst (accept_call s k c))"
  by (auto simp add: inv_ids_def accept_call_def Let_def update_conv' split: option.splits)

lemma end_call_inv_ids: "inv_ids s \<Longrightarrow> inv_ids (fst (end_call s k c now))"
  by (auto simp add: inv_ids_def end_call_def Let_def delete_conv' split: option.splits)

lemma disconnect_inv_ids: "inv_ids s \<Longrightarrow> inv_ids (fst (disconnect s k now))"
  by (auto simp add: inv_ids_def disconnect_def Let_def update_conv' split: option.splits)

lemma inv_ids_step: "inv_ids s \<Longrightarrow> inv_ids (fst (step s i))"
  by (cases i)
     (simp_all add: register_inv_ids register_commit_inv_ids login_inv_ids
        login_commit_inv_ids send_friend_request_inv_ids
        accept_friend_request_inv_ids reject_friend_request_inv_ids remove_friend_inv_ids
        create_chat_inv_ids get_messages_inv_ids connection_inv_ids authenticate_inv_ids
        send_message_inv_ids start_call_inv_ids accept_call_inv_ids end_call_inv_ids
        disconnect_inv_ids)

lemma has_friend_add_friends:
  "has_friend (add_friends s a b) x y \<longleftrightarrow>
     has_friend s x y \<or> (x = a \<and> y = b) \<or> (x = b \<and> y = a)"
  by (auto simp: has_friend_def add_friends_def Let_def map_of_map_entry update_conv' Set_add_def
      split: option.splits if_splits)

lemma has_friend_remove_friend:
  "has_friend (fst (remove_friend s a b)) x y \<longleftrightarrow>
     has_friend s x y \<and> \<not> (x = a \<and> y = b) \<and> \<not> (x = b \<and> y = a)"
  by (auto simp: has_friend_def remove_friend_def Let_def map_of_map_entry Set_delete_def
      split: option.splits if_splits)

lemma has_friend_cong: "friendships s' = friendships s \<Longrightarrow> has_friend s' = has_friend s"
  by (simp add: has_friend_def fun_eq_iff)

lemma friend_sym_cong: "friendships s' = friendships s \<Longrightarrow> friend_sym s' = friend_sym s"
  by (simp add: friend_sym_def has_friend_def)

lemma register_commit_friendships:
  "admissible s (Register_resumed name mail hashed initial now rnd) \<Longrightarrow>
   has_friend (fst (register_commit s name mail hashed initial now rnd)) = has_friend s"
  by (auto simp: register_commit_def Let_def has_friend_def fun_eq_iff update_conv'
      split: option.splits)

lemma register_friendships:
  "admissible s (Register name mail pass hashed initial now rnd) \<Longrightarrow>
   has_friend (fst (register s name mail pass hashed initial now rnd)) = has_friend s"
  using register_commit_friendships[of s name mail hashed initial now rnd]
  by (simp add: register_def)

lemma accept_has_friend:
  "has_friend (fst (accept_friend_request s u r now)) x y \<longleftrightarrow>
     (case find (is_pending r) (case map_of (friendRequests s) u of None \<Rightarrow> [] | Some rs \<Rightarrow> rs) of
        None \<Rightarrow> has_friend s x y
      | Some request \<Rightarrow> has_friend s x y \<or> (x = u \<and> y = fromUserId request)
                          \<or> (x = fromUserId request \<and> y = u))"
proof (cases "find (is_pending r) (case map_of (friendRequests s) u of None \<Rightarrow> [] | Some rs \<Rightarrow> rs)")
  case None
  then show ?thesis by (simp add: accept_friend_request_def)
next
  case (Some request)
  have fr: "friendships (fst (accept_friend_request s u r now)) =
        friendships (add_friends (answer_request s u r Accepted now) u (fromUserId request))"
    using Some by (simp add: accept_friend_request_def Let_def split: option.splits)
  have "has_friend (answer_request s u r Accepted now) = has_friend s"
    by (rule has_friend_cong) simp
  then show ?thesis using Some
    by (simp add: has_friend_cong[OF fr] has_friend_add_friends)
qed

lemma friend_sym_start: "friend_sym (BerezaServer now)"
  by (auto simp: friend_sym_def has_friend_def BerezaServer_def createDemoData_def demoUsers_def
      Let_def Set_add_def split: if_splits)

lemma friendships_unchanged:
  "friendships (fst (login s mail pass valid now)) = friendships s"
  "friendships (fst (login_commit s u now)) = friendships s"
  "friendships (fst (send_friend_request s u mail now)) = friendships s"
  "friendships (fst (reject_friend_request s u r now)) = friendships s"
  "friendships (fst (create_chat s u name ids now)) = friendships s"
  "friendships (fst (get_messages s u c)) = friendships s"
  "friendships (connection s k) = friendships s"
  "friendships (fst (authenticate s k v now)) = friendships s"
  "friendships (fst (send_message s k c txt now rnd)) = friendships s"
  "friendships (fst (start_call s k c type now)) = friendships s"
  "friendships (fst (accept_call s k callId)) = friendships s"
  "friendships (fst (end_call s k callId now)) = friendships s"
  "friendships (fst (disconnect s k now)) = friendships s"
  by (simp_all add: login_def login_commit_def send_friend_request_def
      reject_friend_request_def create_chat_def
      get_messages_def connection_def authenticate_def send_message_def start_call_def
      accept_call_def end_call_def disconnect_def Let_def split: option.splits prod.splits)

lemma friend_sym_step:
  assumes "friend_sym s" "admissible s i"
  shows "friend_sym (fst (step s i))"
proof (cases i)
  case (Register name mail pass hashed initial now rnd)
  then show ?thesis using assms by (simp add: friend_sym_def register_friendships)
next
  case (Register_resumed name mail hashed initial now rnd)
  then show ?thesis using assms by (simp add: friend_sym_def register_commit_friendships)
next
  case (Accept_friend_request u r now)
  then show ?thesis using assms
    by (auto simp: friend_sym_def accept_has_friend split: option.splits)
next
  case (Remove_friend u f)
  then show ?thesis using assms
    by (auto simp: friend_sym_def has_friend_remove_friend)
qed (use assms in \<open>simp_all add: friend_sym_def has_friend_def friendships_unchanged\<close>)

lemma reachable_friend_sym: "reachable s \<Longrightarrow> friend_sym s"
  by (induction rule: reachable.induct) (simp_all add: friend_sym_start friend_sym_step)

lemma sessions_unchanged:
  "sockets (fst (register s name mail pass hashed initial now rnd)) = sockets s"
  "socketUsers (fst (register s name mail pass hashed initial now rnd)) = socketUsers s"
  "sockets (fst (register_commit s name mail hashed initial now rnd)) = sockets s"
  "socketUsers (fst (register_commit s name mail hashed initial now rnd)) = socketUsers s"
  "sockets (fst (login s mail pass valid now)) = sockets s"
  "socketUsers (fst (login s mail pass valid now)) = socketUsers s"
  "sockets (fst (login_commit s u now)) = sockets s"
  "socketUsers (fst (login_commit s u now)) = socketUsers s"
  "sockets (fst (send_friend_request s u mail now)) = sockets s"
  "socketUsers (fst (send_friend_request s u mail now)) = socketUsers s"
  "sockets (fst (accept_friend_request s u r now)) = sockets s"
  "socketUsers (fst (accept_friend_request s u r now)) = socketUsers s"
  "sockets (fst (reject_friend_request s u r now)) = sockets s"
  "socketUsers (fst (reject_friend_request s u r now)) = socketUsers s"
  "sockets (fst (remove_friend s u f)) = sockets s"
  "socketUsers (fst (remove_friend s u f)) = socketUsers s"
  "sockets (fst (create_chat s u nm ids now)) = sockets s"
  "socketUsers (fst (create_chat s u nm ids now)) = socketUsers s"
  "sockets (fst (get_messages s u c)) = sockets s"
  "socketUsers (fst (get_messages s u c)) = socketUsers s"
  "sockets (fst (send_message s k c txt now rnd)) = sockets s"
  "socketUsers (fst (send_message s k c txt now rnd)) = socketUsers s"
  "sockets (fst (start_call s k c type now)) = sockets s"
  "socketUsers (fst (start_call s k c type now)) = socketUsers s"
  "sockets (fst (accept_call s k callId)) = sockets s"
  "socketUsers (fst (accept_call s k callId)) = socketUsers s"
  "sockets (fst (end_call s k callId now)) = sockets s"
  "socketUsers (fst (end_call s k callId now)) = socketUsers s"
  by (simp_all add: register_def register_commit_def login_def login_commit_def
      send_friend_request_def accept_friend_request_def
      reject_friend_request_def remove_friend_def create_chat_def
      get_messages_def send_message_def start_call_def
      accept_call_def end_call_def Let_def split: option.splits prod.splits)

lemma users_unchanged:
  "users (fst (send_friend_request s u mail now)) = users s"
  "users (fst (accept_friend_request s u r now)) = users s"
  "users (fst (reject_friend_request s u r now)) = users s"
  "users (fst (remove_friend s u f)) = users s"
  "users (fst (create_chat s u nm ids now)) = users s"
  "users (fst (get_messages s u c)) = users s"
  "users (connection s k) = users s"
  "users (fst (send_message s k c txt now rnd)) = users s"
  "users (fst (start_call s k c type now)) = users s"
  "users (fst (accept_call s k callId)) = users s"
  "users (fst (end_call s k callId now)) = users s"
  by (simp_all add: send_friend_request_def accept_friend_request_def
      reject_friend_request_def remove_friend_def create_chat_def connection_def
      get_messages_def send_message_def start_call_def
      accept_call_def end_call_def Let_def split: option.splits prod.splits)

lemma users_grow:
  "map_of (users s) u \<noteq> None \<Longrightarrow>
     map_of (users (fst (register s name mail pass hashed initial now rnd))) u \<noteq> None"
  "map_of (users s) u \<noteq> None \<Longrightarrow> map_of (users (fst (login s mail pass valid now))) u \<noteq> None"
  "map_of (users s) u \<noteq> None \<Longrightarrow> map_of (users (fst (authenticate s k v now))) u \<noteq> None"
  "map_of (users s) u \<noteq> None \<Longrightarrow> map_of (users (fst (disconnect s k now))) u \<noteq> None"
  "map_of (users s) u \<noteq> None \<Longrightarrow>
     map_of (users (fst (register_commit s name mail hashed initial now rnd))) u \<noteq> None"
  "map_of (users s) u \<noteq> None \<Longrightarrow> map_of (users (fst (login_commit s k' now))) u \<noteq> None"
  by (auto simp add: register_def register_commit_def login_def login_commit_def
      authenticate_def disconnect_def Let_def update_conv'
      split: option.splits prod.splits)

lemma inv_sessions_start: "inv_sessions (BerezaServer now)"
  by (simp add: inv_sessions_def BerezaServer_def createDemoData_def demoUsers_def Let_def)

lemma inv_sessionsD1:
  "inv_sessions s \<Longrightarrow> map_of (sockets s) k = Some (Some u) \<Longrightarrow> map_of (users s) u \<noteq> None"
  unfolding inv_sessions_def by blast

lemma inv_sessionsD2:
  "inv_sessions s \<Longrightarrow> map_of (socketUsers s) k = Some u \<Longrightarrow> map_of (sockets s) k = Some (Some u)"
  unfolding inv_sessions_def by blast

lemma inv_sessionsI:
  assumes "\<And>k u. map_of (sockets s) k = Some (Some u) \<Longrightarrow> map_of (users s) u \<noteq> None"
    and "\<And>k u. map_of (socketUsers s) k = Some u \<Longrightarrow> map_of (sockets s) k = Some (Some u)"
  shows "inv_sessions s"
  unfolding inv_sessions_def using assms by blast

lemma connection_inv_sessions:
  assumes "inv_sessions s" "map_of (sockets s) k = None"
  shows "inv_sessions (connection s k)"
proof (rule inv_sessionsI)
  fix k' u assume "map_of (sockets (connection s k)) k' = Some (Some u)"
  then have "map_of (sockets s) k' = Some (Some u)"
    by (simp add: connection_def update_conv' split: if_splits)
  then show "map_of (users (connection s k)) u \<noteq> None"
    using inv_sessionsD1[OF assms(1)] by (simp add: connection_def)
next
  fix k' u assume "map_of (socketUsers (connection s k)) k' = Some u"
  then have a: "map_of (socketUsers s) k' = Some u" by (simp add: connection_def)
  then have b: "map_of (sockets s) k' = Some (Some u)" by (rule inv_sessionsD2[OF assms(1)])
  with assms(2) have "k' \<noteq> k" by auto
  with b show "map_of (sockets (connection s k)) k' = Some (Some u)"
    by (simp add: connection_def update_conv')
qed

lemma authenticate_inv_sessions:
  assumes "inv_sessions s" "map_of (sockets s) k \<noteq> None"
  shows "inv_sessions (fst (authenticate s k v now))"
proof (cases "\<exists>userId user. v = Some userId \<and> map_of (users s) userId = Some user")
  case False
  then have "fst (authenticate s k v now) = s"
    by (auto simp: authenticate_def split: option.splits)
  then show ?thesis using assms by simp
next
  case True
  then obtain userId user where v: "v = Some userId" "map_of (users s) userId = Some user"
    by blast
  let ?s' = "fst (authenticate s k v now)"
  have so: "map_of (sockets ?s') = (map_of (sockets s))(k \<mapsto> Some userId)"
    using v assms(2) by (auto simp: authenticate_def Let_def map_of_map_entry fun_eq_iff)
  have su: "map_of (socketUsers ?s') = (map_of (socketUsers s))(k \<mapsto> userId)"
    using v by (simp add: authenticate_def Let_def update_conv')
  have us: "\<And>u. map_of (users s) u \<noteq> None \<Longrightarrow> map_of (users ?s') u \<noteq> None"
    by (rule users_grow(3))
  show ?thesis
  proof (rule inv_sessionsI)
    fix k' u assume "map_of (sockets ?s') k' = Some (Some u)"
    then have "u = userId \<or> map_of (sockets s) k' = Some (Some u)"
      by (simp add: so split: if_splits)
    then have "map_of (users s) u \<noteq> None"
      using v(2) inv_sessionsD1[OF assms(1)] by auto
    then show "map_of (users ?s') u \<noteq> None" by (rule us)
  next
    fix k' u assume "map_of (socketUsers ?s') k' = Some u"
    then show "map_of (sockets ?s') k' = Some (Some u)"
      using inv_sessionsD2[OF assms(1)] by (auto simp: so su split: if_splits)
  qed
qed

lemma disconnect_fields:
  "map_of (sockets (fst (disconnect s k now))) = (map_of (sockets s))(k := None)"
  "map_of (socketUsers s) k \<noteq> Some [] \<Longrightarrow>
     map_of (socketUsers (fst (disconnect s k now))) = (map_of (socketUsers s))(k := None)"
  by (auto simp: disconnect_def Let_def delete_conv' fun_eq_iff split: option.splits)

lemma disconnect_inv_sessions:
  assumes "inv_sessions s" "inv_ids s"
  shows "inv_sessions (fst (disconnect s k now))"
proof -
  let ?s' = "fst (disconnect s k now)"
  have ne: "map_of (socketUsers s) k \<noteq> Some []"
  proof
    assume "map_of (socketUsers s) k = Some []"
    then have "map_of (sockets s) k = Some (Some [])" by (rule inv_sessionsD2[OF assms(1)])
    then have "map_of (users s) [] \<noteq> None" by (rule inv_sessionsD1[OF assms(1)])
    with assms(2) show False by (simp add: inv_ids_def)
  qed
  show ?thesis
  proof (rule inv_sessionsI)
    fix k' u assume "map_of (sockets ?s') k' = Some (Some u)"
    then have "map_of (sockets s) k' = Some (Some u)"
      by (simp add: disconnect_fields(1) split: if_splits)
    then have "map_of (users s) u \<noteq> None" by (rule inv_sessionsD1[OF assms(1)])
    then show "map_of (users ?s') u \<noteq> None" by (rule users_grow(4))
  next
    fix k' u assume "map_of (socketUsers ?s') k' = Some u"
    then have "k' \<noteq> k \<and> map_of (socketUsers s) k' = Some u"
      by (simp add: disconnect_fields(2)[OF ne] split: if_splits)
    then show "map_of (sockets ?s') k' = Some (Some u)"
      using inv_sessionsD2[OF assms(1)] by (simp add: disconnect_fields(1))
  qed
qed

lemma inv_sessions_frame:
  assumes "inv_sessions s" "sockets s' = sockets s" "socketUsers s' = socketUsers s"
    "\<And>u. map_of (users s) u \<noteq> None \<Longrightarrow> map_of (users s') u \<noteq> None"
  shows "inv_sessions s'"
  using assms unfolding inv_sessions_def by auto

lemma inv_sessions_step:
  assumes "inv_sessions s" "inv_ids s" "admissible s i"
  shows "inv_sessions (fst (step s i))"
proof (cases i)
  case (Register name mail pass hashed initial now rnd)
  have "inv_sessions (fst (register s name mail pass hashed initial now rnd))"
    by (rule inv_sessions_frame[OF assms(1)])
       (rule sessions_unchanged, rule sessions_unchanged, erule users_grow(1))
  with Register show ?thesis by simp
next
  case (Login mail pass valid now)
  have "inv_sessions (fst (login s mail pass valid now))"
    by (rule inv_sessions_frame[OF assms(1)])
       (rule sessions_unchanged, rule sessions_unchanged, erule users_grow(2))
  with Login show ?thesis by simp
next
  case (Register_resumed name mail hashed initial now rnd)
  have "inv_sessions (fst (register_commit s name mail hashed initial now rnd))"
    by (rule inv_sessions_frame[OF assms(1)])
       (rule sessions_unchanged, rule sessions_unchanged, erule users_grow(5))
  with Register_resumed show ?thesis by simp
next
  case (Login_resumed k now)
  have "inv_sessions (fst (login_commit s k now))"
    by (rule inv_sessions_frame[OF assms(1)])
       (rule sessions_unchanged, rule sessions_unchanged, erule users_grow(6))
  with Login_resumed show ?thesis by simp
next
  case (Connection k)
  then show ?thesis using assms by (simp add: connection_inv_sessions)
next
  case (Authenticate k v now)
  then show ?thesis using assms by (simp add: authenticate_inv_sessions)
next
  case (Disconnect k now)
  then show ?thesis using assms by (simp add: disconnect_inv_sessions)
qed (use assms(1) in \<open>simp_all add: inv_sessions_def sessions_unchanged users_unchanged\<close>)

lemma reachable_inv: "reachable s \<Longrightarrow> inv_ids s \<and> inv_sessions s"
  by (induction rule: reachable.induct)
     (simp_all add: inv_ids_start inv_sessions_start inv_ids_step inv_sessions_step)

lemma find_snd_Some:
  "find (\<lambda>(k, u). u = x) xs = Some p \<Longrightarrow> snd p = x \<and> p \<in> set xs"
  by (induction xs) (auto split: if_splits)

lemma find_snd_None: "find (\<lambda>(k, u). u = x) xs = None \<longleftrightarrow> x \<notin> snd ` set xs"
  by (induction xs) (auto split: if_splits)

lemma reachable_run: "reachable s \<Longrightarrow> admissible_run s is \<Longrightarrow> reachable (run s is)"
  by (induction "is" arbitrary: s) (auto intro: reachable_step)

lemma foldl_deliver_fst:
  "or0 (fst (foldl (deliver s u c m) acc ps)) =
     or0 (fst acc) + length (filter (\<lambda>p. p \<noteq> u \<and> getSocketByUserId s p = None) ps)"
  by (induction ps arbitrary: acc) (auto simp: deliver_def or0_def split: option.splits)


lemma send_message_success:
  assumes "send_ok s socket chatId txt userId chat user"
  shows "send_message s socket chatId txt now rnd =
     (let msg = new_message userId user chatId txt now rnd;
          pushed = messages chat @ [msg];
          loop = foldl (deliver s userId chatId msg) (unreadCount chat, []) (participants chat)
      in (s \<lparr> chats := AList.update chatId
                (chat \<lparr> messages := (if length pushed > 1000 then slice_last 100 pushed else pushed),
                        updatedAt := now, lastMessage := Some msg, unreadCount := fst loop \<rparr>)
                (chats s) \<rparr>,
          snd loop))"
  using assms by (simp add: send_ok_def send_message_def Let_def)

lemma send_message_history:
  assumes "send_ok s socket chatId txt userId chat user"
  shows "history (fst (send_message s socket chatId txt now rnd)) chatId =
     (let pushed = history s chatId @ [new_message userId user chatId txt now rnd]
      in if length pushed > 1000 then slice_last 100 pushed else pushed)"
proof -
  have "map_of (chats s) chatId = Some chat" using assms by (simp add: send_ok_def)
  then show ?thesis
    by (simp add: send_message_success[OF assms] history_def Let_def update_conv')
qed

lemma send_message_unread:
  assumes "send_ok s socket chatId txt userId chat user"
  shows "unread (fst (send_message s socket chatId txt now rnd)) chatId =
     unread s chatId
     + length (filter (\<lambda>p. p \<noteq> userId \<and> getSocketByUserId s p = None) (participants chat))"
proof -
  have "map_of (chats s) chatId = Some chat" using assms by (simp add: send_ok_def)
  then show ?thesis
    by (simp add: send_message_success[OF assms] unread_def Let_def update_conv'
        foldl_deliver_fst)
qed


lemma send_message_participants:
  assumes "send_ok s socket chatId txt userId chat user"
  shows "\<exists>chat'. map_of (chats (fst (send_message s socket chatId txt now rnd))) chatId = Some chat'
     \<and> participants chat' = participants chat"
  by (simp add: send_message_success[OF assms] Let_def update_conv')

lemma get_messages_unread:
  assumes "map_of (chats s) chatId = Some chat" "p \<in> set (participants chat)"
  shows "map_option unreadCount (map_of (chats (fst (get_messages s p chatId))) chatId)
     = Some (Some 0)"
  using assms by (simp add: get_messages_def update_conv')

lemma send_message_v2_history:
  assumes "map_of (chats_v2 t) (message_chatId m) = Some chat"
  shows "history_v2 (fst (send_message_v2 t k m)) (message_chatId m) =
     (let pushed = history_v2 t (message_chatId m) @ [m]
      in if length pushed > 1000 then slice_last 1000 pushed else pushed)"
  using assms by (simp add: send_message_v2_def history_v2_def Let_def update_conv')

lemma post_message_v2_history:
  assumes "map_of (chats_v2 t) chatId = Some chat" "chatId \<noteq> []" "txt \<noteq> []" "sender \<noteq> []"
  shows "history_v2 (fst (post_message_v2 t chatId txt sender nm now)) chatId =
     (let pushed = history_v2 t chatId @ [posted_message chatId txt sender nm now]
      in if length pushed > 1000 then slice_last 1000 pushed else pushed)"
  using assms by (simp add: post_message_v2_def history_v2_def Let_def update_conv')

lemma length_slice_last: "n \<le> length xs \<Longrightarrow> length (slice_last n xs) = n"
  by (simp add: slice_last_def)

lemma demo_fields:
  "users (BerezaServer now) = map (\<lambda>u. (user_id u, u)) (demoUsers now)"
  "chats (BerezaServer now) = [(''demo_chat_demo_user_1'', demoChat ''demo_user_1'' now)]"
  "activeCalls (BerezaServer now) = []"
  "friendships (BerezaServer now) =
     [(''demo_user_1'', [''demo_user_2'', ''demo_user_3'']),
      (''demo_user_2'', [''demo_user_1'']), (''demo_user_3'', [''demo_user_1''])]"
  "friendRequests (BerezaServer now) =
     [(''demo_user_1'', []), (''demo_user_2'', []), (''demo_user_3'', [])]"
  "socketUsers (BerezaServer now) = []"
  "sockets (BerezaServer now) = []"
  by (simp_all add: BerezaServer_def createDemoData_def demoUsers_def createDemoChat_def
      Let_def Set_add_def)

lemma demoChat_fields:
  "participants (demoChat ''demo_user_1'' now) = [''demo_user_1'', ''demo_user_2'', ''demo_user_3'']"
  "unreadCount (demoChat u now) = None"
  "length (messages (demoChat u now)) = 3"
  by (simp_all add: demoChat_def Let_def)

lemma chats_unchanged:
  "chats (fst (login s mail pass valid now)) = chats s"
  "chats (fst (login_commit s u now)) = chats s"
  "chats (fst (send_friend_request s u mail now)) = chats s"
  "chats (fst (reject_friend_request s u r now)) = chats s"
  "chats (fst (remove_friend s u f)) = chats s"
  "chats (connection s k) = chats s"
  "chats (fst (authenticate s k v now)) = chats s"
  "chats (fst (start_call s k c type now)) = chats s"
  "chats (fst (accept_call s k callId)) = chats s"
  "chats (fst (end_call s k callId now)) = chats s"
  "chats (fst (disconnect s k now)) = chats s"
  by (simp_all add: login_def login_commit_def send_friend_request_def
      reject_friend_request_def
      remove_friend_def connection_def authenticate_def start_call_def
      accept_call_def end_call_def disconnect_def Let_def split: option.splits prod.splits)

lemma example_sessions:
  "sockets example_server = [(''k1'', Some ''demo_user_1''), (''k2'', Some ''demo_user_2'')]"
  "socketUsers example_server = [(''k1'', ''demo_user_1''), (''k2'', ''demo_user_2'')]"
  by (simp_all add: example_server_def example_inputs_def sessions_unchanged demo_fields
      connection_def authenticate_def Let_def demoUsers_def)

lemma example_users:
  "map fst (users example_server) = [''demo_user_1'', ''demo_user_2'', ''demo_user_3'']"
  by (simp add: example_server_def example_inputs_def users_unchanged demo_fields
      connection_def authenticate_def Let_def demoUsers_def)

lemma example_chats:
  "map (\<lambda>(k, c). (k, participants c, or0 (unreadCount c), length (messages c)))
       (chats example_server) =
     [(''demo_chat_demo_user_1'', [''demo_user_1'', ''demo_user_2'', ''demo_user_3''], 0, 3),
      (''chat_2000'', [''demo_user_2'', ''demo_user_3''], 0, 0)]"
  by (simp add: example_server_def example_inputs_def chats_unchanged demo_fields
      users_unchanged create_chat_def connection_def authenticate_def Let_def demoUsers_def
      demoChat_fields show_time_def digits.simps update_conv' digit_char_def or0_def)

lemma example_admissible: "admissible_run (BerezaServer 0) example_inputs"
  by (simp add: example_inputs_def sessions_unchanged demo_fields connection_def authenticate_def
      Let_def demoUsers_def)

lemma example_reachable: "reachable example_server"
  unfolding example_server_def
  by (rule reachable_run[OF reachable_start example_admissible])

lemma map_of_mapped:
  "map (\<lambda>(k, c). (k, f c)) xs = ys \<Longrightarrow> map_option f (map_of xs k) = map_of ys k"
  by (induction xs arbitrary: ys) auto

lemma map_of_keys: "map fst xs = ks \<Longrightarrow> k \<in> set ks \<Longrightarrow> \<exists>v. map_of xs k = Some v"
  by (induction xs arbitrary: ks) auto

lemma example_send_ok:
  "\<exists>chat user. send_ok example_server ''k1'' ''demo_chat_demo_user_1'' [104, 105] ''demo_user_1''
       chat user
     \<and> participants chat = [''demo_user_1'', ''demo_user_2'', ''demo_user_3'']"
proof -
  obtain user where u: "map_of (users example_server) ''demo_user_1'' = Some user"
    using map_of_keys[OF example_users, of "''demo_user_1''"] by auto
  have "map_option (\<lambda>c. (participants c, or0 (unreadCount c), length (messages c)))
      (map_of (chats example_server) ''demo_chat_demo_user_1'')
      = Some ([''demo_user_1'', ''demo_user_2'', ''demo_user_3''], 0, 3)"
    by (simp add: map_of_mapped[OF example_chats])
  then obtain chat where c: "map_of (chats example_server) ''demo_chat_demo_user_1'' = Some chat"
    "participants chat = [''demo_user_1'', ''demo_user_2'', ''demo_user_3'']"
    by auto
  show ?thesis using u c
    by (auto simp: send_ok_def socket_userId_def example_sessions)
qed

lemma example_resolution:
  "getSocketByUserId example_server ''demo_user_1'' = Some ''k1''"
  "getSocketByUserId example_server ''demo_user_2'' = Some ''k2''"
  "getSocketByUserId example_server ''demo_user_3'' = None"
  by (simp_all add: getSocketByUserId_def example_sessions)

lemma example_history:
  "length (history example_server ''demo_chat_demo_user_1'') = 3"
  "unread example_server ''demo_chat_demo_user_1'' = 0"
  "map_of (chats example_server) ''no_such_chat'' = None"
  "\<exists>chat. map_of (chats example_server) ''chat_2000'' = Some chat
      \<and> ''demo_user_1'' \<notin> set (participants chat)"
proof -
  let ?f = "\<lambda>c. (participants c, or0 (unreadCount c), length (messages c))"
  have a: "map_option ?f (map_of (chats example_server) ''demo_chat_demo_user_1'')
      = Some ([''demo_user_1'', ''demo_user_2'', ''demo_user_3''], 0, 3)"
    by (simp add: map_of_mapped[OF example_chats])
  then show "length (history example_server ''demo_chat_demo_user_1'') = 3"
    by (auto simp: history_def)
  from a show "unread example_server ''demo_chat_demo_user_1'' = 0"
    by (auto simp: unread_def)
  have "map_option ?f (map_of (chats example_server) ''no_such_chat'') = None"
    by (simp add: map_of_mapped[OF example_chats])
  then show "map_of (chats example_server) ''no_such_chat'' = None" by simp
  have "map_option ?f (map_of (chats example_server) ''chat_2000'')
      = Some ([''demo_user_2'', ''demo_user_3''], 0, 0)"
    by (simp add: map_of_mapped[OF example_chats])
  then show "\<exists>chat. map_of (chats example_server) ''chat_2000'' = Some chat
      \<and> ''demo_user_1'' \<notin> set (participants chat)"
    by auto
qed

lemma full_server_send_ok:
  "\<exists>user. send_ok full_server ''k1'' ''demo_chat_demo_user_1'' [104, 105] ''demo_user_1''
       ((demoChat ''demo_user_1'' 0)
           \<lparr> messages := map (\<lambda>i. new_message ''demo_user_2'' (demoUsers 0 ! 1)
                                   ''demo_chat_demo_user_1'' [104, 105] (int i) ''x'')
                             [0..<1000] \<rparr>) user"
proof -
  obtain user where u: "map_of (users example_server) ''demo_user_1'' = Some user"
    using map_of_keys[OF example_users, of "''demo_user_1''"] by auto
  then show ?thesis
    by (auto simp: send_ok_def full_server_def socket_userId_def example_sessions
        demoChat_fields)
qed

lemma full_server_history: "length (history full_server ''demo_chat_demo_user_1'') = 1000"
  by (simp add: history_def full_server_def)

lemma full_server_v2_history:
  "length (history_v2 full_server_v2 ''room'') = 1000"
  "map_of (chats_v2 full_server_v2) (message_chatId example_message) \<noteq> None"
  "message_chatId example_message = ''room''"
  by (simp_all add: history_v2_def full_server_v2_def example_message_def)

lemma getSocketByUserId_frame [simp]:
  "getSocketByUserId (s \<lparr> chats := x \<rparr>) = getSocketByUserId s"
  "getSocketByUserId (s \<lparr> activeCalls := y \<rparr>) = getSocketByUserId s"
  by (simp_all add: getSocketByUserId_def fun_eq_iff cong: option.case_cong prod.case_cong)

lemma emit_to_frame [simp]:
  "emit_to (s \<lparr> chats := x \<rparr>) = emit_to s"
  "emit_to (s \<lparr> activeCalls := y \<rparr>) = emit_to s"
  by (simp_all add: emit_to_def fun_eq_iff)

lemma getSocketByUserId_v2_frame [simp]:
  "getSocketByUserId_v2 (t \<lparr> chats_v2 := x \<rparr>) = getSocketByUserId_v2 t"
  "getSocketByUserId_v2 (t \<lparr> activeCalls_v2 := y \<rparr>) = getSocketByUserId_v2 t"
  by (simp_all add: getSocketByUserId_v2_def fun_eq_iff cong: option.case_cong)

lemma emit_to_v2_frame [simp]:
  "emit_to_v2 (t \<lparr> chats_v2 := x \<rparr>) = emit_to_v2 t"
  "emit_to_v2 (t \<lparr> activeCalls_v2 := y \<rparr>) = emit_to_v2 t"
  "socket_userId_v2 (t \<lparr> activeCalls_v2 := y \<rparr>) = socket_userId_v2 t"
  by (simp_all add: emit_to_v2_def socket_userId_v2_def fun_eq_iff)

lemma concat_map_if: "concat (map (\<lambda>p. if P p then f p else []) ps) = concat (map f (filter P ps))"
  by (induction ps) auto




lemma reachable_user:
  assumes "reachable s" "socket_userId s socket = Some userId"
  shows "userId \<noteq> [] \<and> (\<exists>user. map_of (users s) userId = Some user)"
proof -
  have i: "inv_ids s" "inv_sessions s" using reachable_inv[OF assms(1)] by auto
  from assms(2) have "map_of (sockets s) socket = Some (Some userId)"
    by (auto simp: socket_userId_def split: option.splits)
  then have "map_of (users s) userId \<noteq> None" by (rule inv_sessionsD1[OF i(2)])
  with i(1) show ?thesis by (auto simp: inv_ids_def)
qed

lemma start_call_success:
  assumes "socket_userId s socket = Some userId" "userId \<noteq> []" "chatId \<noteq> []"
    "map_of (chats s) chatId = Some chat" "userId \<in> set (participants chat)"
    "map_of (users s) userId = Some user"
  shows "start_call s socket chatId type now =
     (s \<lparr> activeCalls := AList.update (''call_'' @ show_time now)
            (new_call userId user chatId type now) (activeCalls s) \<rparr>,
      concat (map (\<lambda>p. emit_to s p
          (Incoming_call (''call_'' @ show_time now) chatId (user_name user)
             (call_type (new_call userId user chatId type now))))
        (filter (\<lambda>p. p \<noteq> userId) (participants chat)))
      @ [Emit socket (Call_started (''call_'' @ show_time now)
           (new_call userId user chatId type now))])"
  using assms by (simp add: start_call_def Let_def concat_map_if)


lemma accept_call_success:
  assumes "socket_userId s socket = Some userId" "userId \<noteq> []" "callId \<noteq> []"
    "map_of (activeCalls s) callId = Some callData"
  shows "accept_call s socket callId =
     (s \<lparr> activeCalls := AList.update callId
            (callData \<lparr> call_participants := call_participants callData @ [userId],
                        call_status := Active \<rparr>) (activeCalls s) \<rparr>,
      map (\<lambda>(k, a). Emit k (Call_accepted callId userId
            (callData \<lparr> call_participants := call_participants callData @ [userId],
                        call_status := Active \<rparr>)))
        (sockets s))"
  using assms by (simp add: accept_call_def Let_def io_emit_def)

lemma accept_call_unknown:
  "map_of (activeCalls s) callId = None \<Longrightarrow> accept_call s socket callId = (s, [])"
  by (simp add: accept_call_def split: option.splits)

lemma accept_call_v2_cases:
  "map_of (activeCalls_v2 t) chatId = None \<Longrightarrow> accept_call_v2 t k chatId = (t, [])"
  "map_of (activeCalls_v2 t) chatId = Some callData \<Longrightarrow>
     accept_call_v2 t k chatId =
       (t \<lparr> activeCalls_v2 := AList.update chatId (callData \<lparr> status_v2 := Active \<rparr>)
              (activeCalls_v2 t) \<rparr>,
        concat (map (\<lambda>p. emit_to_v2 t p (Call_accepted_v2 chatId (caller_v2 callData)))
          (call_participants_v2 callData)))"
  by (simp_all add: accept_call_v2_def Let_def)



lemma show_time_examples:
  "show_time 3000 = ''3000''" "show_time 2000 = ''2000''" "show_time 4000 = ''4000''"
  by (simp_all add: show_time_def digits.simps digit_char_def)

lemma example_graph:
  "friendships example_server =
     [(''demo_user_1'', [''demo_user_2'', ''demo_user_3'']),
      (''demo_user_2'', [''demo_user_1'']), (''demo_user_3'', [''demo_user_1''])]"
  "activeCalls example_server = []"
  "friendRequests example_server =
     [(''demo_user_1'', []), (''demo_user_2'', []), (''demo_user_3'', [])]"
  by (simp_all add: example_server_def example_inputs_def friendships_unchanged demo_fields
      connection_def authenticate_def create_chat_def Let_def demoUsers_def split: option.splits)

lemma calling_server_fields:
  "\<exists>u. activeCalls calling_server =
     [(''call_3000'', new_call ''demo_user_1'' u ''demo_chat_demo_user_1'' ''video'' 3000)]"
  "sockets calling_server = sockets example_server"
  "socketUsers calling_server = socketUsers example_server"
  "reachable calling_server"
proof -
  obtain c u where e: "send_ok example_server ''k1'' ''demo_chat_demo_user_1'' [104, 105]
      ''demo_user_1'' c u"
    using example_send_ok by blast
  have "start_call example_server ''k1'' ''demo_chat_demo_user_1'' ''video'' 3000 =
     (example_server \<lparr> activeCalls := AList.update (''call_'' @ show_time 3000)
            (new_call ''demo_user_1'' u ''demo_chat_demo_user_1'' ''video'' 3000)
            (activeCalls example_server) \<rparr>,
      concat (map (\<lambda>p. emit_to example_server p
          (Incoming_call (''call_'' @ show_time 3000) ''demo_chat_demo_user_1'' (user_name u)
             (call_type (new_call ''demo_user_1'' u ''demo_chat_demo_user_1'' ''video'' 3000))))
        (filter (\<lambda>p. p \<noteq> ''demo_user_1'') (participants c)))
      @ [Emit ''k1'' (Call_started (''call_'' @ show_time 3000)
           (new_call ''demo_user_1'' u ''demo_chat_demo_user_1'' ''video'' 3000))])"
    using e by (intro start_call_success) (simp_all add: send_ok_def)
  then show "\<exists>u. activeCalls calling_server =
     [(''call_3000'', new_call ''demo_user_1'' u ''demo_chat_demo_user_1'' ''video'' 3000)]"
    by (auto simp: calling_server_def example_graph show_time_examples)
  show "sockets calling_server = sockets example_server"
    "socketUsers calling_server = socketUsers example_server"
    by (simp_all add: calling_server_def sessions_unchanged)
  have "admissible example_server (Start_call ''k1'' ''demo_chat_demo_user_1'' ''video'' 3000)"
    by (simp add: example_sessions)
  from reachable_step[OF example_reachable this] show "reachable calling_server"
    by (simp add: calling_server_def)
qed

lemma calling_server_resolution:
  "getSocketByUserId calling_server ''demo_user_1'' = Some ''k1''"
  "getSocketByUserId calling_server ''demo_user_2'' = Some ''k2''"
  "getSocketByUserId calling_server ''demo_user_3'' = None"
  "socket_userId calling_server ''k2'' = Some ''demo_user_2''"
  by (simp_all add: getSocketByUserId_def socket_userId_def calling_server_fields
      example_sessions)

lemma example_v2_resolution:
  "getSocketByUserId_v2 example_server_v2 ''alice'' = Some ''k1''"
  "getSocketByUserId_v2 example_server_v2 ''bob'' = Some ''k2''"
  "getSocketByUserId_v2 example_server_v2 ''carol'' = None"
  "socket_userId_v2 example_server_v2 ''k1'' = Some ''alice''"
  "map_option participants_v2 (map_of (chats_v2 example_server_v2) ''room'')
     = Some [''alice'', ''bob'', ''carol'']"
  "map fst (sockets_v2 example_server_v2) = [''k1'', ''k2'', ''k3'']"
  "socket_userId_v2 example_server_v2 ''k2'' = Some ''bob''"
  by (simp_all add: getSocketByUserId_v2_def socket_userId_v2_def example_server_v2_def)

lemma calling_server_v2_fields:
  "activeCalls_v2 calling_server_v2 =
     [(''room'', \<lparr> chatId_v2 = ''room'', caller_v2 = [65], type_v2 = ''video'',
                   status_v2 = Calling,
                   call_participants_v2 = [''alice'', ''bob'', ''carol''],
                   startTime_v2 = 7000 \<rparr>)]"
  "getSocketByUserId_v2 calling_server_v2 = getSocketByUserId_v2 example_server_v2"
  "sockets_v2 calling_server_v2 = sockets_v2 example_server_v2"
  "socket_userId_v2 calling_server_v2 = socket_userId_v2 example_server_v2"
  by (simp_all add: calling_server_v2_def start_call_v2_def Let_def example_server_v2_def
      getSocketByUserId_v2_def socket_userId_v2_def fun_eq_iff)

lemma targets_append [simp]: "targets (xs @ ys) = targets xs @ targets ys"
  by (induction xs rule: targets.induct) auto

lemma reachable_ids:
  assumes "reachable s"
  shows "map_of (chats s) chatId = Some chat \<Longrightarrow> chatId \<noteq> []"
    and "map_of (activeCalls s) callId = Some callData \<Longrightarrow> callId \<noteq> []"
  using reachable_inv[OF assms] by (auto simp: inv_ids_def)

lemma update_new: "map_of al k = None \<Longrightarrow> AList.update k v al = al @ [(k, v)]"
  by (induction al) (auto split: if_splits)

lemma createChatBetweenUsers_existing:
  assumes "map_of (chats s) (private_chat_id u1 u2) = Some c
     \<or> (map_of (chats s) (private_chat_id u1 u2) = None
          \<and> map_of (chats s) (private_chat_id u2 u1) = Some c)"
  shows "createChatBetweenUsers s u1 u2 now = (s, Some (chat_id c))"
  using assms by (auto simp: createChatBetweenUsers_def Let_def)

lemma createChatBetweenUsers_new:
  assumes "map_of (chats s) (private_chat_id u1 u2) = None"
    "map_of (chats s) (private_chat_id u2 u1) = None"
    "map_of (users s) u1 = Some user1" "map_of (users s) u2 = Some user2"
  shows "createChatBetweenUsers s u1 u2 now =
     (s \<lparr> chats := chats s @
          [(private_chat_id u1 u2,
            \<lparr> chat_id = private_chat_id u1 u2, chat_name = user_name user2,
              chat_type = Private, participants = [u1, u2],
              messages = [welcome_message u1 u2 user1 now],
              chat_createdAt = now, updatedAt = now,
              lastMessage = Some (welcome_message u1 u2 user1 now),
              unreadCount = None \<rparr>)] \<rparr>,
      Some (private_chat_id u1 u2))"
  using assms by (simp add: createChatBetweenUsers_def Let_def update_new)

lemma createChatBetweenUsers_idem:
  "createChatBetweenUsers (fst (createChatBetweenUsers s u1 u2 now)) u1 u2 later =
     createChatBetweenUsers s u1 u2 now"
  by (auto simp: createChatBetweenUsers_def Let_def update_conv' split: option.splits)

lemma example_private_chats:
  "map_of (chats example_server) (private_chat_id ''demo_user_2'' ''demo_user_3'') = None"
  "map_of (chats example_server) (private_chat_id ''demo_user_3'' ''demo_user_2'') = None"
  "\<exists>u2 u3. map_of (users example_server) ''demo_user_2'' = Some u2
     \<and> map_of (users example_server) ''demo_user_3'' = Some u3"
proof -
  let ?f = "\<lambda>c. (participants c, or0 (unreadCount c), length (messages c))"
  have "map_option ?f (map_of (chats example_server) (private_chat_id ''demo_user_2'' ''demo_user_3''))
      = None"
    by (simp add: map_of_mapped[OF example_chats] private_chat_id_def)
  then show "map_of (chats example_server) (private_chat_id ''demo_user_2'' ''demo_user_3'') = None"
    by simp
  have "map_option ?f (map_of (chats example_server) (private_chat_id ''demo_user_3'' ''demo_user_2''))
      = None"
    by (simp add: map_of_mapped[OF example_chats] private_chat_id_def)
  then show "map_of (chats example_server) (private_chat_id ''demo_user_3'' ''demo_user_2'') = None"
    by simp
  show "\<exists>u2 u3. map_of (users example_server) ''demo_user_2'' = Some u2
     \<and> map_of (users example_server) ''demo_user_3'' = Some u3"
    using map_of_keys[OF example_users, of "''demo_user_2''"]
      map_of_keys[OF example_users, of "''demo_user_3''"] by auto
qed

lemma example_users_full:
  "users example_server =
     [(''demo_user_1'', (demoUsers 0 ! 0) \<lparr> status := Online, lastSeen := 1000 \<rparr>),
      (''demo_user_2'', (demoUsers 0 ! 1) \<lparr> status := Online, lastSeen := 1500 \<rparr>),
      (''demo_user_3'', demoUsers 0 ! 2)]"
  by (simp add: example_server_def example_inputs_def users_unchanged demo_fields
      connection_def authenticate_def Let_def demoUsers_def)

lemma requested_server_fields:
  "friendRequests requested_server =
     [(''demo_user_1'', []), (''demo_user_2'', []),
      (''demo_user_3'', [\<lparr> request_id = ''friend_req_4000'', fromUserId = ''demo_user_2'',
          toUserId = ''demo_user_3'', request_status = Pending, request_createdAt = 4000,
          respondedAt = None \<rparr>])]"
  "friendships requested_server = friendships example_server"
  "reachable requested_server"
proof -
  show "friendRequests requested_server =
     [(''demo_user_1'', []), (''demo_user_2'', []),
      (''demo_user_3'', [\<lparr> request_id = ''friend_req_4000'', fromUserId = ''demo_user_2'',
          toUserId = ''demo_user_3'', request_status = Pending, request_createdAt = 4000,
          respondedAt = None \<rparr>])]"
    by (simp add: requested_server_def send_friend_request_def example_users_full
        demoUsers_def has_friend_def example_graph Let_def show_time_examples
        getSocketByUserId_def example_sessions)
  show "friendships requested_server = friendships example_server"
    by (simp add: requested_server_def friendships_unchanged)
  have "admissible example_server (Send_friend_request ''demo_user_2'' ''maria@example.com'' 4000)"
    by simp
  from reachable_step[OF example_reachable this] show "reachable requested_server"
    by (simp add: requested_server_def)
qed

lemma authenticate_known:
  assumes "map_of (users s) u = Some usr"
  shows "users (fst (authenticate s c (Some u) t)) =
           AList.update u (usr \<lparr> status := Online, lastSeen := t \<rparr>) (users s)"
    and "socketUsers (fst (authenticate s c (Some u) t)) = AList.update c u (socketUsers s)"
    and "sockets (fst (authenticate s c (Some u) t)) =
           AList.map_entry c (\<lambda>a. Some u) (sockets s)"
  using assms by (simp_all add: authenticate_def Let_def)

lemma disconnect_known:
  assumes "map_of (socketUsers s) c = Some u" "u \<noteq> []" "map_of (users s) u = Some usr"
  shows "fst (disconnect s c t) =
           s \<lparr> sockets := AList.delete c (sockets s),
               socketUsers := AList.delete c (socketUsers s),
               users := AList.update u (usr \<lparr> status := Offline, lastSeen := t \<rparr>) (users s) \<rparr>"
    and "snd (disconnect s c t) =
           concat (map (\<lambda>f. emit_to (fst (disconnect s c t)) f
               (Friend_status_changed u (user_name usr) Offline t))
             (friendIds_of s u))"
  using assms
  by (simp_all add: disconnect_def Let_def notifyFriendsStatusChange_def update_conv'
      friendIds_of_def)

lemma list_all_update:
  "list_all (\<lambda>(k, v). P k v) al \<Longrightarrow> P k v \<Longrightarrow> list_all (\<lambda>(k, v). P k v) (AList.update k v al)"
  by (induction al) auto

lemma list_all_map_of:
  "list_all (\<lambda>(k, v). P k v) al \<Longrightarrow> map_of al k = Some v \<Longrightarrow> P k v"
  by (induction al) (auto split: if_splits)

lemma distinct_unique_first: "distinct (unique_first xs)"
proof (induction xs rule: unique_first.induct)
  case 1
  show ?case by simp
next
  case (2 x xs)
  have "set (unique_first ys) \<subseteq> set ys" for ys :: "'a list"
    by (induction ys rule: unique_first.induct) auto
  then have "x \<notin> set (unique_first (removeAll x xs))" by fastforce
  with 2 show ?case by simp
qed

lemma users_ok_update: "users_ok al \<Longrightarrow> user_id u = k \<Longrightarrow> users_ok (AList.update k u al)"
  unfolding users_ok_def
  using list_all_update[of "\<lambda>k u. user_id u = k" al k u] by (simp add: distinct_update)

lemma users_ok_map_of: "users_ok al \<Longrightarrow> map_of al k = Some u \<Longrightarrow> user_id u = k"
  unfolding users_ok_def using list_all_map_of[of "\<lambda>k u. user_id u = k" al k u] by simp

lemma users_ok_member: "users_ok al \<Longrightarrow> u \<in> snd ` set al \<Longrightarrow> map_of al (user_id u) = Some u"
proof -
  assume a: "users_ok al" "u \<in> snd ` set al"
  then obtain k where k: "(k, u) \<in> set al" by auto
  then have m: "map_of al k = Some u" using a(1) by (simp add: users_ok_def)
  then have "user_id u = k" using a(1) by (rule users_ok_map_of[rotated])
  with m show ?thesis by simp
qed

lemma chats_ok_update:
  "chats_ok al \<Longrightarrow> distinct (participants c) \<Longrightarrow> chats_ok (AList.update k c al)"
  unfolding chats_ok_def
  using list_all_update[of "\<lambda>k c. distinct (participants c)" al k c] by simp

lemma chats_ok_map_of: "chats_ok al \<Longrightarrow> map_of al k = Some c \<Longrightarrow> distinct (participants c)"
  unfolding chats_ok_def using list_all_map_of[of "\<lambda>k c. distinct (participants c)" al k c]
  by simp

lemma requests_ok_update:
  "requests_ok al \<Longrightarrow> list_all (\<lambda>r. fromUserId r \<noteq> k) rs \<Longrightarrow> requests_ok (AList.update k rs al)"
  unfolding requests_ok_def
  using list_all_update[of "\<lambda>k rs. list_all (\<lambda>r. fromUserId r \<noteq> k) rs" al k rs] by simp

lemma requests_ok_map_of:
  "requests_ok al \<Longrightarrow> map_of al k = Some rs \<Longrightarrow> list_all (\<lambda>r. fromUserId r \<noteq> k) rs"
  unfolding requests_ok_def
  using list_all_map_of[of "\<lambda>k rs. list_all (\<lambda>r. fromUserId r \<noteq> k) rs" al k rs] by simp

lemma users_changed:
  "users (fst (register_commit s name mail hashed initial now rnd)) =
     AList.update (''user_'' @ show_time now @ rnd)
       \<lparr> user_id = ''user_'' @ show_time now @ rnd, user_name = name, email = mail,
         password = hashed, avatar = initial, user_createdAt = now, status = Offline,
         lastSeen = now \<rparr> (users s)"
  "users (fst (login_commit s k now)) =
     (case map_of (users s) k of
        None \<Rightarrow> users s
      | Some u \<Rightarrow> AList.update k (u \<lparr> status := Online, lastSeen := now \<rparr>) (users s))"
  "users (fst (authenticate s c v now)) =
     (case v of
        None \<Rightarrow> users s
      | Some userId \<Rightarrow>
          (case map_of (users s) userId of
             None \<Rightarrow> users s
           | Some u \<Rightarrow> AList.update userId (u \<lparr> status := Online, lastSeen := now \<rparr>) (users s)))"
  "users (fst (disconnect s c now)) =
     (case map_of (socketUsers s) c of
        None \<Rightarrow> users s
      | Some userId \<Rightarrow>
          if userId = [] then users s
          else (case map_of (users s) userId of
             None \<Rightarrow> users s
           | Some u \<Rightarrow> AList.update userId (u \<lparr> status := Offline, lastSeen := now \<rparr>) (users s)))"
  by (simp_all add: register_commit_def login_commit_def authenticate_def disconnect_def Let_def
      split: option.splits)

lemma users_ok_start: "users_ok (users (BerezaServer now))"
  by (simp add: users_ok_def demo_fields demoUsers_def)

lemma users_ok_step:
  assumes "users_ok (users s)"
  shows "users_ok (users (fst (step s i)))"
proof (cases i)
  case (Register name mail pass hashed initial now rnd)
  then show ?thesis using assms
    by (simp add: register_def users_changed users_ok_update)
next
  case (Register_resumed name mail hashed initial now rnd)
  then show ?thesis using assms by (simp add: users_changed users_ok_update)
next
  case (Login mail pass valid now)
  then show ?thesis using assms
    by (auto simp: login_def users_changed split: option.splits
        intro!: users_ok_update dest: users_ok_map_of)
next
  case (Login_resumed k now)
  then show ?thesis using assms
    by (auto simp: users_changed split: option.splits
        intro!: users_ok_update dest: users_ok_map_of)
next
  case (Authenticate k v now)
  then show ?thesis using assms
    by (auto simp: users_changed split: option.splits
        intro!: users_ok_update dest: users_ok_map_of)
next
  case (Disconnect k now)
  then show ?thesis using assms
    by (auto simp: users_changed split: option.splits
        intro!: users_ok_update dest: users_ok_map_of)
qed (use assms in \<open>simp_all add: users_unchanged\<close>)

lemma friendRequests_unchanged:
  "friendRequests (fst (register s name mail pass hashed initial now rnd)) = friendRequests s
   \<or> friendRequests (fst (register s name mail pass hashed initial now rnd)) =
       AList.update (''user_'' @ show_time now @ rnd) [] (friendRequests s)"
  "friendRequests (fst (register_commit s name mail hashed initial now rnd)) =
     AList.update (''user_'' @ show_time now @ rnd) [] (friendRequests s)"
  "friendRequests (fst (login s mail pass valid now)) = friendRequests s"
  "friendRequests (fst (login_commit s u now)) = friendRequests s"
  "friendRequests (fst (remove_friend s u f)) = friendRequests s"
  "friendRequests (fst (create_chat s u nm ids now)) = friendRequests s"
  "friendRequests (fst (get_messages s u c)) = friendRequests s"
  "friendRequests (connection s k) = friendRequests s"
  "friendRequests (fst (authenticate s k v now)) = friendRequests s"
  "friendRequests (fst (send_message s k c txt now rnd)) = friendRequests s"
  "friendRequests (fst (start_call s k c type now)) = friendRequests s"
  "friendRequests (fst (accept_call s k callId)) = friendRequests s"
  "friendRequests (fst (end_call s k callId now)) = friendRequests s"
  "friendRequests (fst (disconnect s k now)) = friendRequests s"
  by (simp_all add: register_def register_commit_def login_def login_commit_def
      remove_friend_def create_chat_def connection_def
      get_messages_def authenticate_def send_message_def start_call_def
      accept_call_def end_call_def disconnect_def Let_def split: option.splits prod.splits)

lemma list_all_update_first:
  "list_all P xs \<Longrightarrow> (\<And>x. P x \<Longrightarrow> P (f x)) \<Longrightarrow> list_all P (update_first Q f xs)"
  by (induction xs) auto

lemma answer_request_ok:
  assumes "requests_ok (friendRequests s)"
  shows "requests_ok (friendRequests (answer_request s u r st now))"
proof -
  have "list_all (\<lambda>r. fromUserId r \<noteq> u)
      (case map_of (friendRequests s) u of None \<Rightarrow> [] | Some rs \<Rightarrow> rs)"
    using requests_ok_map_of[OF assms, of u] by (auto split: option.splits)
  then have "list_all (\<lambda>r. fromUserId r \<noteq> u)
      (update_first (is_pending r) (\<lambda>r. r \<lparr> request_status := st, respondedAt := Some now \<rparr>)
         (case map_of (friendRequests s) u of None \<Rightarrow> [] | Some rs \<Rightarrow> rs))"
    by (rule list_all_update_first) simp
  then show ?thesis
    unfolding answer_request_def using requests_ok_update[OF assms] by simp
qed

lemma accept_friend_request_requests:
  "friendRequests (fst (accept_friend_request s u r now)) = friendRequests s
   \<or> friendRequests (fst (accept_friend_request s u r now))
       = friendRequests (answer_request s u r Accepted now)"
  by (simp add: accept_friend_request_def Let_def split: option.splits)

lemma reject_friend_request_requests:
  "friendRequests (fst (reject_friend_request s u r now)) = friendRequests s
   \<or> friendRequests (fst (reject_friend_request s u r now))
       = friendRequests (answer_request s u r Rejected now)"
  by (simp add: reject_friend_request_def Let_def split: option.splits)

lemma find_Some_member: "find P xs = Some x \<Longrightarrow> x \<in> set xs \<and> P x"
  by (induction xs) (auto split: if_splits)

lemma send_friend_request_ok:
  assumes "requests_ok (friendRequests s)" "users_ok (users s)"
  shows "requests_ok (friendRequests (fst (send_friend_request s cu mail now)))"
proof (cases "find (\<lambda>u. email u = mail) (map snd (users s))")
  case None
  then show ?thesis using assms(1) by (simp add: send_friend_request_def)
next
  case (Some friend)
  show ?thesis
  proof (cases "map_option email (map_of (users s) cu) = Some mail")
    case True
    then show ?thesis using assms(1) by (simp add: send_friend_request_def)
  next
    case False
    have f: "friend \<in> snd ` set (users s)" "email friend = mail"
      using find_Some_member[OF Some] by auto
    have "map_of (users s) (user_id friend) = Some friend"
      by (rule users_ok_member[OF assms(2) f(1)])
    with False f(2) have ne: "cu \<noteq> user_id friend" by auto
    let ?stored = "case map_of (friendRequests s) (user_id friend) of None \<Rightarrow> [] | Some rs \<Rightarrow> rs"
    let ?req = "\<lparr> request_id = ''friend_req_'' @ show_time now, fromUserId = cu,
        toUserId = user_id friend, request_status = Pending, request_createdAt = now,
        respondedAt = None \<rparr>"
    have "list_all (\<lambda>r. fromUserId r \<noteq> user_id friend) ?stored"
      using requests_ok_map_of[OF assms(1), of "user_id friend"] by (auto split: option.splits)
    then have l: "list_all (\<lambda>r. fromUserId r \<noteq> user_id friend) (?stored @ [?req])"
      using ne by simp
    have "friendRequests (fst (send_friend_request s cu mail now)) = friendRequests s
      \<or> friendRequests (fst (send_friend_request s cu mail now))
          = AList.update (user_id friend) (?stored @ [?req]) (friendRequests s)"
      using Some by (simp add: send_friend_request_def Let_def split: option.splits)
    then show ?thesis using assms(1) requests_ok_update[OF assms(1) l] by auto
  qed
qed

lemma requests_ok_start: "requests_ok (friendRequests (BerezaServer now))"
  by (simp add: requests_ok_def demo_fields)

lemma requests_ok_step:
  assumes "requests_ok (friendRequests s)" "users_ok (users s)"
  shows "requests_ok (friendRequests (fst (step s i)))"
proof (cases i)
  case (Register name mail pass hashed initial now rnd)
  then show ?thesis
    using assms(1) friendRequests_unchanged(1)[of s name mail pass hashed initial now rnd]
      requests_ok_update[OF assms(1), of "''user_'' @ show_time now @ rnd" "[]"]
    by auto
next
  case (Register_resumed name mail hashed initial now rnd)
  then show ?thesis
    using requests_ok_update[OF assms(1), of "''user_'' @ show_time now @ rnd" "[]"]
    by (simp add: friendRequests_unchanged)
next
  case (Send_friend_request u mail now)
  then show ?thesis using send_friend_request_ok[OF assms] by simp
next
  case (Accept_friend_request u r now)
  then show ?thesis
    using accept_friend_request_requests[of s u r now] answer_request_ok[OF assms(1)] assms(1)
    by auto
next
  case (Reject_friend_request u r now)
  then show ?thesis
    using reject_friend_request_requests[of s u r now] answer_request_ok[OF assms(1)] assms(1)
    by auto
qed (use assms(1) in \<open>simp_all add: friendRequests_unchanged\<close>)

lemma createDemoChat_ok: "chats_ok (chats s) \<Longrightarrow> chats_ok (chats (createDemoChat s u now))"
  by (auto simp: createDemoChat_def Let_def demoChat_def distinct_unique_first
      simp del: unique_first.simps split: option.splits intro!: chats_ok_update)

lemma createChatBetweenUsers_ok:
  "chats_ok (chats s) \<Longrightarrow> a \<noteq> b \<Longrightarrow> chats_ok (chats (fst (createChatBetweenUsers s a b now)))"
  by (auto simp: createChatBetweenUsers_def Let_def split: option.splits
      intro!: chats_ok_update)

lemma create_chat_ok:
  "chats_ok (chats s) \<Longrightarrow> chats_ok (chats (fst (create_chat s u nm ids now)))"
  by (auto simp: create_chat_def Let_def distinct_unique_first
      simp del: unique_first.simps split: option.splits intro!: chats_ok_update)

lemma send_message_ok:
  "chats_ok (chats s) \<Longrightarrow> chats_ok (chats (fst (send_message s k c txt now rnd)))"
  by (auto simp: send_message_def Let_def split: option.splits
      intro!: chats_ok_update dest: chats_ok_map_of)

lemma get_messages_ok:
  "chats_ok (chats s) \<Longrightarrow> chats_ok (chats (fst (get_messages s u c)))"
  by (auto simp: get_messages_def Let_def split: option.splits
      intro!: chats_ok_update dest: chats_ok_map_of)

lemma register_commit_ok:
  "chats_ok (chats s) \<Longrightarrow>
     chats_ok (chats (fst (register_commit s name mail hashed initial now rnd)))"
  by (simp add: register_commit_def Let_def createDemoChat_ok)

lemma accept_friend_request_ok:
  assumes "chats_ok (chats s)" "requests_ok (friendRequests s)"
  shows "chats_ok (chats (fst (accept_friend_request s u r now)))"
proof (cases "find (is_pending r) (case map_of (friendRequests s) u of None \<Rightarrow> [] | Some rs \<Rightarrow> rs)")
  case None
  then show ?thesis using assms(1) by (simp add: accept_friend_request_def)
next
  case (Some request)
  have "list_all (\<lambda>r. fromUserId r \<noteq> u)
      (case map_of (friendRequests s) u of None \<Rightarrow> [] | Some rs \<Rightarrow> rs)"
    using requests_ok_map_of[OF assms(2), of u] by (auto split: option.splits)
  then have ne: "u \<noteq> fromUserId request"
    using find_Some_member[OF Some] by (auto simp: list_all_iff)
  let ?s2 = "add_friends (answer_request s u r Accepted now) u (fromUserId request)"
  have c: "chats_ok (chats ?s2)" using assms(1) by simp
  have "chats (fst (accept_friend_request s u r now)) = chats ?s2
      \<or> chats (fst (accept_friend_request s u r now))
          = chats (fst (createChatBetweenUsers ?s2 u (fromUserId request) now))"
    using Some by (simp add: accept_friend_request_def Let_def split: option.splits)
  then show ?thesis using c createChatBetweenUsers_ok[OF c ne] by auto
qed

lemma chats_ok_start: "chats_ok (chats (BerezaServer now))"
  by (simp add: chats_ok_def demo_fields demoChat_fields)

lemma chats_ok_step:
  assumes "chats_ok (chats s)" "requests_ok (friendRequests s)"
  shows "chats_ok (chats (fst (step s i)))"
proof (cases i)
  case (Register name mail pass hashed initial now rnd)
  then show ?thesis using assms(1) by (simp add: register_def register_commit_ok)
next
  case (Register_resumed name mail hashed initial now rnd)
  then show ?thesis using assms(1) by (simp add: register_commit_ok)
next
  case (Accept_friend_request u r now)
  then show ?thesis using accept_friend_request_ok[OF assms] by simp
next
  case (Create_chat u nm ids now)
  then show ?thesis using assms(1) by (simp add: create_chat_ok)
next
  case (Get_messages u c)
  then show ?thesis using assms(1) by (simp add: get_messages_ok)
next
  case (Send_message k c body now rnd)
  then show ?thesis using assms(1) by (simp add: send_message_ok)
qed (use assms(1) in \<open>simp_all add: chats_unchanged\<close>)

lemma reachable_data: "reachable s \<Longrightarrow> inv_data s"
  by (induction rule: reachable.induct)
     (simp_all add: inv_data_def users_ok_start requests_ok_start chats_ok_start
        users_ok_step requests_ok_step chats_ok_step)

lemma reachable_offline:
  assumes "reachable s"
  shows "getSocketByUserId s p = None \<longleftrightarrow> \<not> isUserOnline s p"
proof (cases "find (\<lambda>(k, u). u = p) (socketUsers s)")
  case None
  then have "getSocketByUserId s p = None" by (simp add: getSocketByUserId_def)
  moreover have "\<not> isUserOnline s p" using None by (simp add: isUserOnline_def find_snd_None)
  ultimately show ?thesis by simp
next
  case (Some a)
  obtain k u where a: "a = (k, u)" by (cases a)
  have m: "(k, u) \<in> set (socketUsers s)" "u = p" using find_snd_Some[OF Some] a by auto
  then have "map_of (socketUsers s) k \<noteq> None"
    by (metis image_eqI map_of_eq_None_iff fst_conv)
  then obtain u' where "map_of (socketUsers s) k = Some u'" by auto
  then have "map_of (sockets s) k = Some (Some u')"
    using reachable_inv[OF assms] inv_sessionsD2 by blast
  then have "getSocketByUserId s p \<noteq> None"
    using Some a by (simp add: getSocketByUserId_def)
  moreover have "isUserOnline s p" using m by (force simp: isUserOnline_def)
  ultimately show ?thesis by simp
qed

lemma reachable_participants:
  "reachable s \<Longrightarrow> map_of (chats s) c = Some chat \<Longrightarrow> distinct (participants chat)"
  using reachable_data[of s] chats_ok_map_of[of "chats s" c chat] by (simp add: inv_data_def)









section \<open>The claims\<close>

subsection \<open>C1: the cap on the message history\<close>

text \<open>
  Claim C1 says that in every chat an append that pushes the history above 1000 entries
  leaves exactly the 100 most recently appended messages, and that any other append removes
  nothing. The \<open>send_message\<close> handler of version 1 does that (lines 683 to 690). The
  handlers of version 2 (lines 1178 to 1183 and 1281 to 1286) cut with \<open>slice(-1000)\<close>:
  there the history keeps its 1000 most recent messages. At a version 2 chat with 1000
  messages the claim fails.
\<close>

theorem history_cap_counterexample:
  "length (history_v2 full_server_v2 ''room'') + 1 > 1000
   \<and> length (history_v2 (fst (send_message_v2 full_server_v2 ''k1'' example_message)) ''room'')
       \<noteq> 100"
proof -
  have "history_v2 (fst (send_message_v2 full_server_v2 ''k1'' example_message)) ''room'' =
      slice_last 1000 (history_v2 full_server_v2 ''room'' @ [example_message])"
    using send_message_v2_history[of full_server_v2 example_message _ "''k1''"]
      full_server_v2_history by (auto simp: Let_def)
  then show ?thesis
    by (simp add: full_server_v2_history length_slice_last)
qed

text \<open>
  C1 as amended: in version 1 an append that pushes the history of a chat above 1000
  entries leaves exactly its 100 most recent entries, the new message last; in version 2
  (the socket handler and \<open>POST /api/messages\<close>) such an append leaves the 1000 most
  recent entries; in both versions an append that does not push the length above 1000
  removes nothing.
\<close>

theorem history_cap:
  "(send_ok s socket chatId txt userId chat user \<longrightarrow>
      history (fst (send_message s socket chatId txt now rnd)) chatId =
        (if length (history s chatId) + 1 > 1000
         then drop (length (history s chatId) + 1 - 100)
                (history s chatId @ [new_message userId user chatId txt now rnd])
         else history s chatId @ [new_message userId user chatId txt now rnd])
      \<and> (length (history s chatId) + 1 > 1000 \<longrightarrow>
           length (history (fst (send_message s socket chatId txt now rnd)) chatId) = 100))
   \<and> (map_of (chats_v2 t) (message_chatId m) \<noteq> None \<longrightarrow>
      history_v2 (fst (send_message_v2 t k m)) (message_chatId m) =
        (if length (history_v2 t (message_chatId m)) + 1 > 1000
         then drop (length (history_v2 t (message_chatId m)) + 1 - 1000)
                (history_v2 t (message_chatId m) @ [m])
         else history_v2 t (message_chatId m) @ [m])
      \<and> (length (history_v2 t (message_chatId m)) + 1 > 1000 \<longrightarrow>
           length (history_v2 (fst (send_message_v2 t k m)) (message_chatId m)) = 1000))
   \<and> (map_of (chats_v2 t) c \<noteq> None \<and> c \<noteq> [] \<and> body \<noteq> [] \<and> sender \<noteq> [] \<longrightarrow>
      history_v2 (fst (post_message_v2 t c body sender nm later)) c =
        (if length (history_v2 t c) + 1 > 1000
         then drop (length (history_v2 t c) + 1 - 1000)
                (history_v2 t c @ [posted_message c body sender nm later])
         else history_v2 t c @ [posted_message c body sender nm later]))"
proof (intro conjI impI)
  assume ok: "send_ok s socket chatId txt userId chat user"
  show "history (fst (send_message s socket chatId txt now rnd)) chatId =
        (if length (history s chatId) + 1 > 1000
         then drop (length (history s chatId) + 1 - 100)
                (history s chatId @ [new_message userId user chatId txt now rnd])
         else history s chatId @ [new_message userId user chatId txt now rnd])"
    by (simp add: send_message_history[OF ok] Let_def slice_last_def)
  assume "length (history s chatId) + 1 > 1000"
  then show "length (history (fst (send_message s socket chatId txt now rnd)) chatId) = 100"
    by (simp add: send_message_history[OF ok] Let_def slice_last_def)
next
  assume "map_of (chats_v2 t) (message_chatId m) \<noteq> None"
  then obtain chat2 where c2: "map_of (chats_v2 t) (message_chatId m) = Some chat2" by auto
  show "history_v2 (fst (send_message_v2 t k m)) (message_chatId m) =
        (if length (history_v2 t (message_chatId m)) + 1 > 1000
         then drop (length (history_v2 t (message_chatId m)) + 1 - 1000)
                (history_v2 t (message_chatId m) @ [m])
         else history_v2 t (message_chatId m) @ [m])"
    by (simp add: send_message_v2_history[OF c2] Let_def slice_last_def)
  assume "length (history_v2 t (message_chatId m)) + 1 > 1000"
  then show "length (history_v2 (fst (send_message_v2 t k m)) (message_chatId m)) = 1000"
    by (simp add: send_message_v2_history[OF c2] Let_def slice_last_def)
next
  assume a: "map_of (chats_v2 t) c \<noteq> None \<and> c \<noteq> [] \<and> body \<noteq> [] \<and> sender \<noteq> []"
  then obtain chat2 where c2: "map_of (chats_v2 t) c = Some chat2" by auto
  show "history_v2 (fst (post_message_v2 t c body sender nm later)) c =
        (if length (history_v2 t c) + 1 > 1000
         then drop (length (history_v2 t c) + 1 - 1000)
                (history_v2 t c @ [posted_message c body sender nm later])
         else history_v2 t c @ [posted_message c body sender nm later])"
    using a by (simp add: post_message_v2_history[OF c2] Let_def slice_last_def)
qed

theorem history_cap_witness:
  "length (history (fst (send_message full_server ''k1'' ''demo_chat_demo_user_1'' [104, 105]
      3000 ''r4nd0m'')) ''demo_chat_demo_user_1'') = 100
   \<and> length (history (fst (send_message example_server ''k1'' ''demo_chat_demo_user_1''
      [104, 105] 3000 ''r4nd0m'')) ''demo_chat_demo_user_1'') = 4
   \<and> length (history_v2 (fst (send_message_v2 full_server_v2 ''k1'' example_message)) ''room'')
      = 1000
   \<and> length (history_v2 (fst (post_message_v2 full_server_v2 ''room'' [104, 105] ''alice''
      [65] 6000)) ''room'') = 1000"
proof -
  obtain u1 where f: "send_ok full_server ''k1'' ''demo_chat_demo_user_1'' [104, 105]
      ''demo_user_1''
      ((demoChat ''demo_user_1'' 0)
           \<lparr> messages := map (\<lambda>i. new_message ''demo_user_2'' (demoUsers 0 ! 1)
                                   ''demo_chat_demo_user_1'' [104, 105] (int i) ''x'')
                             [0..<1000] \<rparr>) u1"
    using full_server_send_ok by blast
  obtain c2 u2 where e: "send_ok example_server ''k1'' ''demo_chat_demo_user_1'' [104, 105]
      ''demo_user_1'' c2 u2"
    using example_send_ok by blast
  have p: "map_of (chats_v2 full_server_v2) ''room'' \<noteq> None"
    using full_server_v2_history by simp
  show ?thesis
    using history_cap[of full_server "''k1''" "''demo_chat_demo_user_1''" "[104, 105]"
        "''demo_user_1''" _ u1 3000 "''r4nd0m''" full_server_v2 example_message "''k1''"
        "''room''" "[104, 105]" "''alice''" "[65]" 6000] f p
      history_cap[of example_server "''k1''" "''demo_chat_demo_user_1''" "[104, 105]"
        "''demo_user_1''" c2 u2 3000 "''r4nd0m''"] e
    by (simp add: full_server_history full_server_v2_history example_history)
qed

subsection \<open>C2: the unread counter\<close>

text \<open>
  Claim C2: a successful \<open>send_message\<close> into a chat by one of its participants raises
  \<open>chat.unreadCount\<close> by exactly the number of participants other than the sender that
  have no live connection, and the next reading of the history
  (\<open>GET /api/chats/:chatId/messages\<close>) by any participant sets the counter to 0. The loop
  (lines 693 to 706) adds one for every entry of \<open>chat.participants\<close> other than the sender
  for which \<open>getSocketByUserId\<close> finds no socket. In a reachable state the participants of a
  chat are pairwise different and \<open>getSocketByUserId\<close> finds a socket exactly for the users
  that \<open>isUserOnline\<close> reports, so the increment is the number of participants other than
  the sender that are not online.
\<close>

theorem unread_counter:
  assumes "send_ok s socket chatId txt userId chat user"
  shows "unread (fst (send_message s socket chatId txt now rnd)) chatId =
           unread s chatId
           + length (filter (\<lambda>p. p \<noteq> userId \<and> getSocketByUserId s p = None) (participants chat))
         \<and> (reachable s \<longrightarrow>
               unread (fst (send_message s socket chatId txt now rnd)) chatId =
                 unread s chatId
                 + card {p \<in> set (participants chat). p \<noteq> userId \<and> \<not> isUserOnline s p})
         \<and> (\<forall>p \<in> set (participants chat).
               map_option unreadCount
                 (map_of (chats (fst (get_messages (fst (send_message s socket chatId txt now rnd))
                    p chatId))) chatId) = Some (Some 0))"
proof (intro conjI ballI impI)
  show u: "unread (fst (send_message s socket chatId txt now rnd)) chatId =
           unread s chatId
           + length (filter (\<lambda>p. p \<noteq> userId \<and> getSocketByUserId s p = None) (participants chat))"
    by (rule send_message_unread[OF assms])
  assume r: "reachable s"
  have "map_of (chats s) chatId = Some chat" using assms by (simp add: send_ok_def)
  then have d: "distinct (participants chat)" by (rule reachable_participants[OF r])
  have "length (filter (\<lambda>p. p \<noteq> userId \<and> getSocketByUserId s p = None) (participants chat))
      = card {p \<in> set (participants chat). p \<noteq> userId \<and> \<not> isUserOnline s p}"
    unfolding distinct_length_filter[OF d] reachable_offline[OF r]
    by (rule arg_cong[of _ _ card]) auto
  with u show "unread (fst (send_message s socket chatId txt now rnd)) chatId =
                 unread s chatId
                 + card {p \<in> set (participants chat). p \<noteq> userId \<and> \<not> isUserOnline s p}"
    by simp
next
  fix p assume p: "p \<in> set (participants chat)"
  obtain chat' where c: "map_of (chats (fst (send_message s socket chatId txt now rnd))) chatId
      = Some chat'" "participants chat' = participants chat"
    using send_message_participants[OF assms] by blast
  show "map_option unreadCount
          (map_of (chats (fst (get_messages (fst (send_message s socket chatId txt now rnd))
             p chatId))) chatId) = Some (Some 0)"
    using get_messages_unread[OF c(1), of p] p c(2) by simp
qed

theorem unread_counter_witness:
  "reachable example_server
   \<and> unread (fst (send_message example_server ''k1'' ''demo_chat_demo_user_1'' [104, 105] 3000
      ''r4nd0m'')) ''demo_chat_demo_user_1'' = 1
   \<and> map_option unreadCount
        (map_of (chats (fst (get_messages (fst (send_message example_server ''k1''
           ''demo_chat_demo_user_1'' [104, 105] 3000 ''r4nd0m'')) ''demo_user_3''
           ''demo_chat_demo_user_1''))) ''demo_chat_demo_user_1'') = Some (Some 0)"
proof -
  obtain c u where e: "send_ok example_server ''k1'' ''demo_chat_demo_user_1'' [104, 105]
      ''demo_user_1'' c u"
    and p: "participants c = [''demo_user_1'', ''demo_user_2'', ''demo_user_3'']"
    using example_send_ok by blast
  show ?thesis
    using unread_counter[OF e, of 3000 "''r4nd0m''"] example_reachable
    by (simp add: p example_resolution example_history)
qed

subsection \<open>C4: a message to an unknown chat, or from a user outside the chat\<close>

text \<open>
  Claim C4: \<open>send_message\<close> with an unknown chat id, or from a socket whose user is not
  among the participants of the chat, changes nothing and emits nothing: the handler
  returns the state it was given and an empty list of outputs, so no error event reaches
  the sender and no store changes.
\<close>

theorem send_message_rejected_silently:
  assumes "map_of (chats s) chatId = None
     \<or> (\<exists>chat userId. map_of (chats s) chatId = Some chat \<and> socket_userId s socket = Some userId
           \<and> userId \<notin> set (participants chat))"
  shows "send_message s socket chatId txt now rnd = (s, [])"
  using assms by (auto simp: send_message_def split: option.splits)

theorem send_message_rejected_silently_witness:
  "send_message example_server ''k1'' ''no_such_chat'' [104, 105] 3000 ''r4nd0m''
     = (example_server, [])
   \<and> send_message example_server ''k1'' ''chat_2000'' [104, 105] 3000 ''r4nd0m''
     = (example_server, [])"
proof -
  have k: "socket_userId example_server ''k1'' = Some ''demo_user_1''"
    by (simp add: socket_userId_def example_sessions)
  show ?thesis
    using send_message_rejected_silently[of example_server "''no_such_chat''" "''k1''"]
      send_message_rejected_silently[of example_server "''chat_2000''" "''k1''"]
      example_history k
    by auto
qed

subsection \<open>C5: starting a call\<close>




subsection \<open>C6: accepting a call\<close>

text \<open>
  Claim C6 says that \<open>accept_call\<close> with an unknown call id does nothing and that, for every
  known call id, it appends the acting user to the participants of the call, sets the status
  to \<open>active\<close> and broadcasts \<open>call_accepted\<close> to every connected socket. Version 1 does
  (lines 760 to 778). Version 2 (lines 1339 to 1360) only sets the status and notifies the
  recorded participants that are connected: when Bob accepts Alice's call in the room, the
  participants of the call stay Alice, Bob and Carol, and Dave's socket \<open>k3\<close>, which is
  connected, receives nothing.
\<close>

theorem accept_call_effect_counterexample:
  "map_option call_participants_v2 (map_of (activeCalls_v2 calling_server_v2) ''room'')
     = Some [''alice'', ''bob'', ''carol'']
   \<and> socket_userId_v2 calling_server_v2 ''k2'' = Some ''bob''
   \<and> map_option call_participants_v2
        (map_of (activeCalls_v2 (fst (accept_call_v2 calling_server_v2 ''k2'' ''room'')))
           ''room'') = Some [''alice'', ''bob'', ''carol'']
   \<and> map fst (sockets_v2 calling_server_v2) = [''k1'', ''k2'', ''k3'']
   \<and> targets (snd (accept_call_v2 calling_server_v2 ''k2'' ''room'')) = [''k1'', ''k2'']"
  by (simp add: accept_call_v2_def Let_def calling_server_v2_fields emit_to_v2_def
      example_v2_resolution update_conv')

text \<open>
  C6 as amended: in both versions \<open>accept_call\<close> with an unknown call id changes nothing and
  emits nothing. In version 1, for every known call id in a reachable state and every
  authenticated socket, it appends the socket's user to the participants of the call, sets
  the status to \<open>active\<close> and emits \<open>call_accepted\<close> with the call id, the user id and the
  updated call on every connected socket. In version 2, for every known call (stored under
  its chat id), it sets the status to \<open>active\<close>, leaves the participants as they are and
  emits \<open>call_accepted\<close> with the chat id and the caller to the recorded participants that
  are connected.
\<close>

theorem accept_call_effect:
  "(map_of (activeCalls s) callId = None \<longrightarrow> accept_call s socket callId = (s, []))
   \<and> (reachable s \<and> socket_userId s socket = Some userId
        \<and> map_of (activeCalls s) callId = Some callData \<longrightarrow>
      (\<exists>callData1.
         call_participants callData1 = call_participants callData @ [userId]
         \<and> call_status callData1 = Active
         \<and> callData1 = callData \<lparr> call_participants := call_participants callData @ [userId],
                                   call_status := Active \<rparr>
         \<and> map_of (activeCalls (fst (accept_call s socket callId))) callId = Some callData1
         \<and> snd (accept_call s socket callId) =
             map (\<lambda>k. Emit k (Call_accepted callId userId callData1)) (map fst (sockets s))))
   \<and> (map_of (activeCalls_v2 t) c = None \<longrightarrow> accept_call_v2 t k c = (t, []))
   \<and> (map_of (activeCalls_v2 t) c = Some callData2 \<longrightarrow>
      map_of (activeCalls_v2 (fst (accept_call_v2 t k c))) c
        = Some (callData2 \<lparr> status_v2 := Active \<rparr>)
      \<and> snd (accept_call_v2 t k c) =
          concat (map (\<lambda>p. emit_to_v2 t p (Call_accepted_v2 c (caller_v2 callData2)))
            (call_participants_v2 callData2)))"
proof (intro conjI impI)
  assume "map_of (activeCalls s) callId = None"
  then show "accept_call s socket callId = (s, [])" by (rule accept_call_unknown)
next
  assume a: "reachable s \<and> socket_userId s socket = Some userId
        \<and> map_of (activeCalls s) callId = Some callData"
  then have u: "userId \<noteq> []" using reachable_user[of s socket userId] by blast
  have c: "callId \<noteq> []" using a reachable_ids(2)[of s callId callData] by blast
  have m: "map (\<lambda>(k, a). f k) xs = map f (map fst xs)" for f :: "sid \<Rightarrow> out"
    and xs :: "(sid \<times> uid option) list"
    by (induction xs) auto
  show "\<exists>callData1.
         call_participants callData1 = call_participants callData @ [userId]
         \<and> call_status callData1 = Active
         \<and> callData1 = callData \<lparr> call_participants := call_participants callData @ [userId],
                                   call_status := Active \<rparr>
         \<and> map_of (activeCalls (fst (accept_call s socket callId))) callId = Some callData1
         \<and> snd (accept_call s socket callId) =
             map (\<lambda>k. Emit k (Call_accepted callId userId callData1)) (map fst (sockets s))"
    using a u c by (simp add: accept_call_success[of s socket userId callId callData]
        update_conv' m)
next
  assume "map_of (activeCalls_v2 t) c = None"
  then show "accept_call_v2 t k c = (t, [])" by (rule accept_call_v2_cases(1))
next
  assume a: "map_of (activeCalls_v2 t) c = Some callData2"
  show "map_of (activeCalls_v2 (fst (accept_call_v2 t k c))) c
        = Some (callData2 \<lparr> status_v2 := Active \<rparr>)"
    by (simp add: accept_call_v2_cases(2)[OF a] update_conv')
  show "snd (accept_call_v2 t k c) =
          concat (map (\<lambda>p. emit_to_v2 t p (Call_accepted_v2 c (caller_v2 callData2)))
            (call_participants_v2 callData2))"
    by (simp add: accept_call_v2_cases(2)[OF a])
qed

theorem accept_call_effect_witness:
  "accept_call calling_server ''k2'' ''call_9999'' = (calling_server, [])
   \<and> map_option call_participants
        (map_of (activeCalls (fst (accept_call calling_server ''k2'' ''call_3000'')))
           ''call_3000'') = Some [''demo_user_1'', ''demo_user_2'']
   \<and> map_option call_status
        (map_of (activeCalls (fst (accept_call calling_server ''k2'' ''call_3000'')))
           ''call_3000'') = Some Active
   \<and> targets (snd (accept_call calling_server ''k2'' ''call_3000'')) = [''k1'', ''k2'']
   \<and> accept_call_v2 calling_server_v2 ''k2'' ''nowhere'' = (calling_server_v2, [])
   \<and> targets (snd (accept_call_v2 calling_server_v2 ''k2'' ''room'')) = [''k1'', ''k2'']"
proof -
  obtain u where c: "activeCalls calling_server =
     [(''call_3000'', new_call ''demo_user_1'' u ''demo_chat_demo_user_1'' ''video'' 3000)]"
    using calling_server_fields(1) by blast
  have t: "targets (map (\<lambda>k. Emit k ev) ks) = ks" for ev ks
    by (induction ks) auto
  show ?thesis
    using accept_call_effect[of calling_server "''call_9999''" "''k2''" _ _ calling_server_v2
        "''nowhere''" "''k2''"]
      accept_call_effect[of calling_server "''call_3000''" "''k2''" "''demo_user_2''"
        "new_call ''demo_user_1'' u ''demo_chat_demo_user_1'' ''video'' 3000"
        calling_server_v2 "''room''" "''k2''"
        "\<lparr> chatId_v2 = ''room'', caller_v2 = [65], type_v2 = ''video'', status_v2 = Calling,
           call_participants_v2 = [''alice'', ''bob'', ''carol''], startTime_v2 = 7000 \<rparr>"]
      calling_server_fields(4)
    by (simp add: c calling_server_resolution calling_server_v2_fields calling_server_fields
        example_sessions new_call_def t emit_to_v2_def example_v2_resolution)
qed

subsection \<open>C7: ending a call\<close>



subsection \<open>C8: the private chat of two users\<close>

text \<open>
  Claim C8: for two existing users \<open>createChatBetweenUsers\<close> (lines 927 to 965) is
  idempotent. When the chat map has a chat under \<open>chat_u1_u2\<close> or under \<open>chat_u2_u1\<close>, the
  id of that chat is returned and the state is unchanged. Otherwise exactly one chat is
  added, under \<open>chat_u1_u2\<close>: it is private, its participants are \<open>[u1, u2]\<close>, and its
  history is the one greeting message, whose sender is the first argument \<open>u1\<close>. A second
  call returns what the first returned and changes nothing more.
\<close>

theorem createChatBetweenUsers_idempotent:
  assumes "map_of (users s) u1 = Some user1" "map_of (users s) u2 = Some user2"
  shows "(map_of (chats s) (private_chat_id u1 u2) = Some c
            \<or> (map_of (chats s) (private_chat_id u1 u2) = None
                \<and> map_of (chats s) (private_chat_id u2 u1) = Some c)
          \<longrightarrow> createChatBetweenUsers s u1 u2 now = (s, Some (chat_id c)))
       \<and> (map_of (chats s) (private_chat_id u1 u2) = None
            \<and> map_of (chats s) (private_chat_id u2 u1) = None
          \<longrightarrow> (\<exists>newChat.
                createChatBetweenUsers s u1 u2 now =
                  (s \<lparr> chats := chats s @ [(private_chat_id u1 u2, newChat)] \<rparr>,
                   Some (private_chat_id u1 u2))
                \<and> chat_id newChat = private_chat_id u1 u2
                \<and> chat_type newChat = Private
                \<and> participants newChat = [u1, u2]
                \<and> messages newChat = [welcome_message u1 u2 user1 now]
                \<and> senderId (welcome_message u1 u2 user1 now) = u1))
       \<and> createChatBetweenUsers (fst (createChatBetweenUsers s u1 u2 now)) u1 u2 later
           = createChatBetweenUsers s u1 u2 now"
proof (intro conjI impI)
  assume "map_of (chats s) (private_chat_id u1 u2) = Some c
            \<or> (map_of (chats s) (private_chat_id u1 u2) = None
                \<and> map_of (chats s) (private_chat_id u2 u1) = Some c)"
  then show "createChatBetweenUsers s u1 u2 now = (s, Some (chat_id c))"
    by (rule createChatBetweenUsers_existing)
next
  assume "map_of (chats s) (private_chat_id u1 u2) = None
            \<and> map_of (chats s) (private_chat_id u2 u1) = None"
  then show "\<exists>newChat.
                createChatBetweenUsers s u1 u2 now =
                  (s \<lparr> chats := chats s @ [(private_chat_id u1 u2, newChat)] \<rparr>,
                   Some (private_chat_id u1 u2))
                \<and> chat_id newChat = private_chat_id u1 u2
                \<and> chat_type newChat = Private
                \<and> participants newChat = [u1, u2]
                \<and> messages newChat = [welcome_message u1 u2 user1 now]
                \<and> senderId (welcome_message u1 u2 user1 now) = u1"
    using assms
    by (intro exI[of _ "\<lparr> chat_id = private_chat_id u1 u2, chat_name = user_name user2,
              chat_type = Private, participants = [u1, u2],
              messages = [welcome_message u1 u2 user1 now],
              chat_createdAt = now, updatedAt = now,
              lastMessage = Some (welcome_message u1 u2 user1 now),
              unreadCount = None \<rparr>"])
       (simp add: createChatBetweenUsers_new welcome_message_def)
next
  show "createChatBetweenUsers (fst (createChatBetweenUsers s u1 u2 now)) u1 u2 later
           = createChatBetweenUsers s u1 u2 now"
    by (rule createChatBetweenUsers_idem)
qed

theorem createChatBetweenUsers_idempotent_witness:
  "snd (createChatBetweenUsers example_server ''demo_user_2'' ''demo_user_3'' 4000)
     = Some ''chat_demo_user_2_demo_user_3''
   \<and> map fst (chats (fst (createChatBetweenUsers example_server ''demo_user_2'' ''demo_user_3''
        4000))) = [''demo_chat_demo_user_1'', ''chat_2000'', ''chat_demo_user_2_demo_user_3'']
   \<and> createChatBetweenUsers
        (fst (createChatBetweenUsers example_server ''demo_user_2'' ''demo_user_3'' 4000))
        ''demo_user_3'' ''demo_user_2'' 5000
      = (fst (createChatBetweenUsers example_server ''demo_user_2'' ''demo_user_3'' 4000),
         Some ''chat_demo_user_2_demo_user_3'')"
proof -
  obtain u2 u3 where u: "map_of (users example_server) ''demo_user_2'' = Some u2"
    "map_of (users example_server) ''demo_user_3'' = Some u3"
    using example_private_chats(3) by blast
  let ?s' = "fst (createChatBetweenUsers example_server ''demo_user_2'' ''demo_user_3'' 4000)"
  have k: "map fst (chats example_server) = [''demo_chat_demo_user_1'', ''chat_2000'']"
    using arg_cong[OF example_chats, of "map fst"] by (simp add: comp_def case_prod_unfold)
  have first: "\<exists>newChat.
      createChatBetweenUsers example_server ''demo_user_2'' ''demo_user_3'' 4000 =
        (example_server \<lparr> chats := chats example_server
            @ [(private_chat_id ''demo_user_2'' ''demo_user_3'', newChat)] \<rparr>,
         Some (private_chat_id ''demo_user_2'' ''demo_user_3''))
      \<and> chat_id newChat = private_chat_id ''demo_user_2'' ''demo_user_3''"
    using createChatBetweenUsers_idempotent[OF u, of _ 4000] example_private_chats
    by auto
  then obtain newChat where n:
    "createChatBetweenUsers example_server ''demo_user_2'' ''demo_user_3'' 4000 =
        (example_server \<lparr> chats := chats example_server
            @ [(private_chat_id ''demo_user_2'' ''demo_user_3'', newChat)] \<rparr>,
         Some (private_chat_id ''demo_user_2'' ''demo_user_3''))"
    "chat_id newChat = private_chat_id ''demo_user_2'' ''demo_user_3''"
    by blast
  have u': "map_of (users ?s') ''demo_user_3'' = Some u3"
    "map_of (users ?s') ''demo_user_2'' = Some u2"
    using u by simp_all
  have c': "map_of (chats ?s') (private_chat_id ''demo_user_3'' ''demo_user_2'') = None
      \<and> map_of (chats ?s') (private_chat_id ''demo_user_2'' ''demo_user_3'') = Some newChat"
    using example_private_chats(1,2) by (simp add: n private_chat_id_def map_add_def)
  have second: "createChatBetweenUsers ?s' ''demo_user_3'' ''demo_user_2'' 5000
      = (?s', Some (chat_id newChat))"
    using createChatBetweenUsers_idempotent[OF u', of newChat 5000] c' by blast
  show ?thesis
    using second by (simp add: n k private_chat_id_def)
qed

text \<open>
  In the handler that accepts a friend request (line 424) the first argument is the user
  who accepts and the second the user who sent the request: the chat is stored under
  \<open>chat_\<close>, the accepting user, \<open>_\<close>, the requesting user, and the greeting is from the
  accepting user.
\<close>

corollary accept_friend_request_seed:
  assumes "pending_request s userId requestId = Some request"
    and "map_of (users s) userId = Some acceptor"
    and "map_of (users s) (fromUserId request) = Some requester"
    and "map_of (chats s) (private_chat_id userId (fromUserId request)) = None"
    and "map_of (chats s) (private_chat_id (fromUserId request) userId) = None"
  shows "history (fst (accept_friend_request s userId requestId now))
           (private_chat_id userId (fromUserId request))
         = [welcome_message userId (fromUserId request) acceptor now]
       \<and> senderId (welcome_message userId (fromUserId request) acceptor now) = userId"
proof -
  let ?s2 = "add_friends (answer_request s userId requestId Accepted now) userId
      (fromUserId request)"
  have f: "find (is_pending requestId)
      (case map_of (friendRequests s) userId of None \<Rightarrow> [] | Some rs \<Rightarrow> rs) = Some request"
    using assms(1) by (simp add: pending_request_def)
  have "chats (fst (accept_friend_request s userId requestId now))
      = chats (fst (createChatBetweenUsers ?s2 userId (fromUserId request) now))"
    using f assms(2) by (simp add: accept_friend_request_def Let_def split: option.splits)
  moreover have "createChatBetweenUsers ?s2 userId (fromUserId request) now =
     (?s2 \<lparr> chats := chats ?s2 @
          [(private_chat_id userId (fromUserId request),
            \<lparr> chat_id = private_chat_id userId (fromUserId request),
              chat_name = user_name requester,
              chat_type = Private, participants = [userId, fromUserId request],
              messages = [welcome_message userId (fromUserId request) acceptor now],
              chat_createdAt = now, updatedAt = now,
              lastMessage = Some (welcome_message userId (fromUserId request) acceptor now),
              unreadCount = None \<rparr>)] \<rparr>,
      Some (private_chat_id userId (fromUserId request)))"
    using assms(2-5) by (intro createChatBetweenUsers_new) simp_all
  ultimately show ?thesis
    using assms(4) by (simp add: history_def map_add_def welcome_message_def)
qed

subsection \<open>C3: the friend graph is symmetric\<close>

text \<open>
  Claim C3: in every reachable state of version 1, \<open>b\<close> is among the friends of \<open>a\<close> exactly
  when \<open>a\<close> is among the friends of \<open>b\<close>; accepting a pending request puts each of the two
  users among the friends of the other (lines 403 to 407), and removing a friend takes each
  out of the other's friends (lines 473 to 479). The reachable states are those the
  constructor and the handlers produce from admissible inputs: the user id that
  registration generates from the clock and \<open>Math.random\<close> is taken to be new.
\<close>

theorem friendship_symmetric:
  assumes "reachable s"
  shows "(\<forall>a b. has_friend s a b \<longleftrightarrow> has_friend s b a)
     \<and> (pending_request s userId requestId = Some request \<longrightarrow>
          has_friend (fst (accept_friend_request s userId requestId now)) userId
            (fromUserId request)
          \<and> has_friend (fst (accept_friend_request s userId requestId now))
              (fromUserId request) userId)
     \<and> \<not> has_friend (fst (remove_friend s remover friendId)) remover friendId
     \<and> \<not> has_friend (fst (remove_friend s remover friendId)) friendId remover"
proof (intro conjI impI)
  show "\<forall>a b. has_friend s a b \<longleftrightarrow> has_friend s b a"
    using reachable_friend_sym[OF assms] by (simp add: friend_sym_def)
next
  assume p: "pending_request s userId requestId = Some request"
  then show "has_friend (fst (accept_friend_request s userId requestId now)) userId
            (fromUserId request)"
    by (simp add: accept_has_friend pending_request_def)
  from p show "has_friend (fst (accept_friend_request s userId requestId now))
              (fromUserId request) userId"
    by (simp add: accept_has_friend pending_request_def)
next
  show "\<not> has_friend (fst (remove_friend s remover friendId)) remover friendId"
    by (simp add: has_friend_remove_friend)
  show "\<not> has_friend (fst (remove_friend s remover friendId)) friendId remover"
    by (simp add: has_friend_remove_friend)
qed

theorem friendship_symmetric_witness:
  "has_friend requested_server ''demo_user_1'' ''demo_user_2''
   \<and> has_friend requested_server ''demo_user_2'' ''demo_user_1''
   \<and> \<not> has_friend requested_server ''demo_user_2'' ''demo_user_3''
   \<and> \<not> has_friend requested_server ''demo_user_3'' ''demo_user_2''
   \<and> has_friend (fst (accept_friend_request requested_server ''demo_user_3''
        ''friend_req_4000'' 5000)) ''demo_user_3'' ''demo_user_2''
   \<and> has_friend (fst (accept_friend_request requested_server ''demo_user_3''
        ''friend_req_4000'' 5000)) ''demo_user_2'' ''demo_user_3''
   \<and> \<not> has_friend (fst (remove_friend requested_server ''demo_user_1'' ''demo_user_2''))
        ''demo_user_1'' ''demo_user_2''
   \<and> \<not> has_friend (fst (remove_friend requested_server ''demo_user_1'' ''demo_user_2''))
        ''demo_user_2'' ''demo_user_1''"
proof -
  have p: "pending_request requested_server ''demo_user_3'' ''friend_req_4000'' =
      Some \<lparr> request_id = ''friend_req_4000'', fromUserId = ''demo_user_2'',
          toUserId = ''demo_user_3'', request_status = Pending, request_createdAt = 4000,
          respondedAt = None \<rparr>"
    by (simp add: pending_request_def requested_server_fields is_pending_def)
  have e: "has_friend requested_server ''demo_user_1'' ''demo_user_2''"
    "\<not> has_friend requested_server ''demo_user_2'' ''demo_user_3''"
    by (simp_all add: has_friend_def requested_server_fields example_graph)
  show ?thesis
    using friendship_symmetric[OF requested_server_fields(3), of "''demo_user_3''"
        "''friend_req_4000''"
        "\<lparr> request_id = ''friend_req_4000'', fromUserId = ''demo_user_2'',
          toUserId = ''demo_user_3'', request_status = Pending, request_createdAt = 4000,
          respondedAt = None \<rparr>" 5000 "''demo_user_1''" "''demo_user_2''"] p e
    by auto
qed

subsection \<open>C9: the echo to the sender\<close>




subsection \<open>C10: stored and derived presence can differ\<close>

text \<open>
  Claim C10: a reachable state exists in which \<open>isUserOnline u\<close> holds while the stored
  status of \<open>u\<close> is \<open>offline\<close> and the friends of \<open>u\<close> have just been told so. It is reached
  from any reachable state in which \<open>u\<close> is a user and \<open>c1\<close> and \<open>c2\<close> are two connected
  sockets: authenticate \<open>u\<close> on \<open>c1\<close>, then on \<open>c2\<close>, then disconnect \<open>c1\<close>. The disconnect
  handler (lines 805 to 822) takes \<open>c1\<close> out of the session map, where \<open>c2\<close> still maps to
  \<open>u\<close>, sets the status to \<open>offline\<close> and emits \<open>friend_status_changed\<close> with status
  \<open>offline\<close> to every friend of \<open>u\<close> for whom \<open>getSocketByUserId\<close> finds a socket. In the
  example Anna opens a second socket \<open>k3\<close> and closes \<open>k1\<close>; her friend Ivan is told on
  \<open>k2\<close>.
\<close>

theorem presence_divergence:
  assumes "reachable s" "map_of (users s) u = Some usr" "c1 \<noteq> c2"
    "map_of (sockets s) c1 \<noteq> None" "map_of (sockets s) c2 \<noteq> None"
  shows "reachable (fst (disconnect (fst (authenticate (fst (authenticate s c1 (Some u) t1)) c2
             (Some u) t2)) c1 t3))
     \<and> isUserOnline (fst (disconnect (fst (authenticate (fst (authenticate s c1 (Some u) t1)) c2
             (Some u) t2)) c1 t3)) u
     \<and> map_option status
         (map_of (users (fst (disconnect (fst (authenticate (fst (authenticate s c1 (Some u) t1))
             c2 (Some u) t2)) c1 t3))) u) = Some Offline
     \<and> snd (disconnect (fst (authenticate (fst (authenticate s c1 (Some u) t1)) c2 (Some u) t2))
           c1 t3) =
         concat (map (\<lambda>f. emit_to (fst (disconnect (fst (authenticate (fst (authenticate s c1
               (Some u) t1)) c2 (Some u) t2)) c1 t3)) f
             (Friend_status_changed u (user_name usr) Offline t3))
           (friendIds_of s u))"
proof -
  let ?s1 = "fst (authenticate s c1 (Some u) t1)"
  let ?s2 = "fst (authenticate ?s1 c2 (Some u) t2)"
  let ?r = "disconnect ?s2 c1 t3"
  have u: "u \<noteq> []" using reachable_inv[OF assms(1)] assms(2) by (auto simp: inv_ids_def)
  note a1 = authenticate_known[OF assms(2), of c1 t1]
  have u1: "map_of (users ?s1) u = Some (usr \<lparr> status := Online, lastSeen := t1 \<rparr>)"
    by (simp add: a1 update_conv')
  note a2 = authenticate_known[OF u1, of c2 t2]
  have u2: "map_of (users ?s2) u = Some (usr \<lparr> status := Online, lastSeen := t2 \<rparr>)"
    by (simp add: a2 update_conv')
  have su2: "map_of (socketUsers ?s2) c1 = Some u" "map_of (socketUsers ?s2) c2 = Some u"
    using assms(3) by (simp_all add: a2 a1 update_conv')
  note d = disconnect_known[OF su2(1) u u2, of t3]
  have r1: "reachable ?s1"
    using reachable_step[OF assms(1), of "Authenticate c1 (Some u) t1"] assms(4) by simp
  have "map_of (sockets ?s1) c2 \<noteq> None"
    using assms(4,5) by (auto simp add: a1 map_of_map_entry split: option.splits)
  then have r2: "reachable ?s2"
    using reachable_step[OF r1, of "Authenticate c2 (Some u) t2"] by simp
  have "map_of (sockets ?s2) c1 \<noteq> None"
    using assms(4,5) by (auto simp add: a1 a2 map_of_map_entry split: option.splits)
  then have r3: "reachable (fst ?r)"
    using reachable_step[OF r2, of "Disconnect c1 t3"] by simp
  have "map_of (socketUsers (fst ?r)) c2 = Some u"
    using su2(2) assms(3) by (simp add: d(1) delete_conv')
  then have "(c2, u) \<in> set (socketUsers (fst ?r))" by (rule map_of_SomeD)
  then have on: "isUserOnline (fst ?r) u"
    by (force simp: isUserOnline_def)
  have st: "map_option status (map_of (users (fst ?r)) u) = Some Offline"
    by (simp add: d(1) update_conv')
  have fr: "friendIds_of ?s2 u = friendIds_of s u"
    by (simp add: friendIds_of_def friendships_unchanged)
  have un: "user_name (usr \<lparr> status := Online, lastSeen := t2 \<rparr>) = user_name usr" by simp
  show ?thesis
    using r3 on st d(2) unfolding fr un by blast
qed

theorem presence_divergence_witness:
  "reachable (fst two_devices)
   \<and> isUserOnline (fst two_devices) ''demo_user_1''
   \<and> map_option status (map_of (users (fst two_devices)) ''demo_user_1'') = Some Offline
   \<and> snd two_devices
       = [Emit ''k2'' (Friend_status_changed ''demo_user_1''
            [1040, 1085, 1085, 1072, 32, 1048, 1074, 1072, 1085, 1086, 1074, 1072] Offline 8000)]"
proof -
  let ?s = "connection example_server ''k3''"
  have "admissible example_server (Connection ''k3'')" by (simp add: example_sessions)
  from reachable_step[OF example_reachable this] have r: "reachable ?s" by simp
  have u: "map_of (users ?s) ''demo_user_1''
      = Some ((demoUsers 0 ! 0) \<lparr> status := Online, lastSeen := 1000 \<rparr>)"
    by (simp add: connection_def example_users_full)
  have k: "''k1'' \<noteq> ''k3''" "map_of (sockets ?s) ''k1'' \<noteq> None"
    "map_of (sockets ?s) ''k3'' \<noteq> None"
    by (simp_all add: connection_def example_sessions)
  note p = presence_divergence[OF r u k, of 6000 7000 8000]
  have so: "sockets (fst two_devices) = [(''k2'', Some ''demo_user_2''), (''k3'', Some ''demo_user_1'')]"
    "socketUsers (fst two_devices) = [(''k2'', ''demo_user_2''), (''k3'', ''demo_user_1'')]"
    using u
    by (simp_all add: two_devices_def disconnect_def authenticate_def Let_def connection_def
        example_sessions update_conv' example_users_full demoUsers_def)
  have g: "getSocketByUserId (fst two_devices) ''demo_user_2'' = Some ''k2''"
    "getSocketByUserId (fst two_devices) ''demo_user_3'' = None"
    by (simp_all add: getSocketByUserId_def so)
  have f: "friendIds_of ?s ''demo_user_1'' = [''demo_user_2'', ''demo_user_3'']"
    by (simp add: friendIds_of_def connection_def example_graph)
  show ?thesis
    using p unfolding two_devices_def [symmetric]
    by (simp add: f emit_to_def g demoUsers_def)
qed

end
